theory Spec2Isabelle
  imports Main
begin

section \<open>SQL values and three-valued logic\<close>

text \<open>
  The program is the schema \<^verbatim>\<open>supabase_schema.sql\<close>: six tables, their
  constraints, their row-level security policies, two helper functions and one trigger.
  A nullable column is an \<open>option\<close> (\<open>None\<close> is SQL NULL). A row given to a statement
  holds the values the statement supplies; bringing them to the column types, and the
  arithmetic and the casts written in the function bodies, raise outside their ranges.
\<close>

type_synonym uuid = nat

text \<open>A \<^verbatim>\<open>TIMESTAMPTZ\<close> is an instant in microseconds since the epoch, a \<^verbatim>\<open>DATE\<close> a day number.\<close>

type_synonym timestamptz = int
type_synonym date = int

text \<open>
  A \<^verbatim>\<open>JSONB\<close> column holds a document, kept as its text. A \<^verbatim>\<open>DECIMAL(p,s)\<close> value is
  taken rounded to its \<open>s\<close> fractional digits and kept scaled by \<open>10^s\<close>.
\<close>

type_synonym jsonb = string
type_synonym decimal = int

datatype sql_error =
    InsufficientPrivilege
  | NotNullViolation
  | CheckViolation
  | UniqueViolation
  | ForeignKeyViolation
  | NumericValueOutOfRange
  | DatetimeFieldOverflow

text \<open>Comparison with NULL is unknown (\<open>None\<close>).\<close>

definition sql_eq :: "'a option \<Rightarrow> 'a option \<Rightarrow> bool option" where
  "sql_eq a b = (case a of None \<Rightarrow> None | Some x \<Rightarrow> (case b of None \<Rightarrow> None | Some y \<Rightarrow> Some (x = y)))"

definition sql_in :: "'a option \<Rightarrow> 'a list \<Rightarrow> bool option" where
  "sql_in a vs = (case a of None \<Rightarrow> None | Some x \<Rightarrow> Some (x \<in> set vs))"

definition sql_between :: "int option \<Rightarrow> int \<Rightarrow> int \<Rightarrow> bool option" where
  "sql_between a lo hi = (case a of None \<Rightarrow> None | Some x \<Rightarrow> Some (lo \<le> x \<and> x \<le> hi))"

definition sql_and :: "bool option \<Rightarrow> bool option \<Rightarrow> bool option" where
  "sql_and a b =
     (if a = Some False \<or> b = Some False then Some False
      else if a = Some True \<and> b = Some True then Some True
      else None)"

text \<open>
  A \<^verbatim>\<open>WHERE\<close> clause, a policy's \<^verbatim>\<open>USING\<close> and its \<^verbatim>\<open>WITH CHECK\<close> keep a row only when the
  condition is true; a \<^verbatim>\<open>CHECK\<close> constraint rejects a row only when it is false.
\<close>

definition is_true :: "bool option \<Rightarrow> bool" where
  "is_true b = (b = Some True)"

definition check_holds :: "bool option \<Rightarrow> bool" where
  "check_holds b = (b \<noteq> Some False)"

definition INT4_MAX :: int where
  "INT4_MAX = 2147483647"

definition INT4_MIN :: int where
  "INT4_MIN = - 2147483648"

text \<open>The cast \<^verbatim>\<open>::INTEGER\<close> and \<^verbatim>\<open>INTEGER\<close> arithmetic raise outside 32 bits.\<close>

definition int4 :: "int \<Rightarrow> sql_error + int" where
  "int4 n = (if INT4_MIN \<le> n \<and> n \<le> INT4_MAX then Inr n else Inl NumericValueOutOfRange)"

text \<open>
  What a column of type \<^verbatim>\<open>INTEGER\<close> and one of type \<^verbatim>\<open>DECIMAL(p,s)\<close> can hold: 32 bits,
  and \<open>p\<close> digits in all.
\<close>

definition integer_fits :: "int option \<Rightarrow> bool" where
  "integer_fits v = (case v of None \<Rightarrow> True | Some n \<Rightarrow> INT4_MIN \<le> n \<and> n \<le> INT4_MAX)"

definition decimal_fits :: "nat \<Rightarrow> decimal option \<Rightarrow> bool" where
  "decimal_fits p v = (case v of None \<Rightarrow> True | Some n \<Rightarrow> \<bar>n\<bar> < 10 ^ p)"

definition usecs_per_day :: int where
  "usecs_per_day = 86400000000"

text \<open>
  The session: \<^verbatim>\<open>auth.uid()\<close> (NULL when nobody is signed in), \<^verbatim>\<open>NOW()\<close>, and the
  session time zone as the offset from UTC in force at an instant.
\<close>

record session =
  auth_uid :: "uuid option"
  now :: timestamptz
  time_zone :: "timestamptz \<Rightarrow> int"

text \<open>The cast \<^verbatim>\<open>::DATE\<close> of a timestamp truncates it to its day in the session time zone.\<close>

definition to_date :: "session \<Rightarrow> timestamptz \<Rightarrow> date" where
  "to_date s ts = (ts + time_zone s ts) div usecs_per_day"

definition CURRENT_DATE :: "session \<Rightarrow> date" where
  "CURRENT_DATE s = to_date s (now s)"

text \<open>
  Days are counted from 1970-01-01. The first \<^verbatim>\<open>DATE\<close> is 4714-11-24 BC, and a timestamp
  ends before 294277-01-01.
\<close>

definition DATE_MIN :: date where
  "DATE_MIN = - 2440588"

definition TIMESTAMP_END_DATE :: date where
  "TIMESTAMP_END_DATE = 106762940"

text \<open>
  \<^verbatim>\<open>check_date - INTERVAL '1 day'\<close>, assigned to a \<^verbatim>\<open>DATE\<close>: the date is taken as a
  timestamp, a day is subtracted from the timestamp, and the result is cast back. The
  first and the second step raise outside the range of a timestamp.
\<close>

definition date_minus_day :: "date \<Rightarrow> sql_error + date" where
  "date_minus_day c =
     (if c < DATE_MIN \<or> TIMESTAMP_END_DATE \<le> c then Inl DatetimeFieldOverflow
      else if c - 1 < DATE_MIN then Inl DatetimeFieldOverflow
      else Inr (c - 1))"

section \<open>Tables\<close>

text \<open>
  Every table starts with \<^verbatim>\<open>id UUID DEFAULT gen_random_uuid() PRIMARY KEY\<close> and
  \<^verbatim>\<open>user_id UUID REFERENCES auth.users(id) ON DELETE CASCADE\<close>. A row is the tuple
  after the \<^verbatim>\<open>DEFAULT\<close> expressions have filled the omitted columns.
\<close>

record owned =
  row_id :: uuid
  user_id :: "uuid option"

record profiles_row = owned +
  name :: "string option"
  email :: "string option"
  github_username :: "string option"
  linkedin_url :: "string option"
  skills :: "jsonb option"
  experience :: "jsonb option"
  education :: "jsonb option"
  career_goals :: "jsonb option"
  resume_text :: "string option"
  github_data :: "jsonb option"
  created_at :: "timestamptz option"
  updated_at :: "timestamptz option"

record applications_row = owned +
  job_title :: "string option"
  company :: "string option"
  job_url :: "string option"
  status :: "string option"
  applied_at :: "timestamptz option"
  updated_at :: "timestamptz option"
  notes_col :: "string option"
  resume_version :: "string option"
  cover_letter :: "string option"

record learning_progress_row = owned +
  roadmap_id :: "string option"
  milestone_id :: "string option"
  completed :: "bool option"
  time_spent_minutes :: "int option"
  notes_col :: "string option"
  completed_at :: "timestamptz option"
  updated_at :: "timestamptz option"

record wellness_logs_row = owned +
  mood :: "string option"
  energy_level :: "int option"
  sleep_hours :: "decimal option"
  stress_level :: "int option"
  notes_col :: "string option"
  logged_at :: "timestamptz option"

record saved_jobs_row = owned +
  job_title :: "string option"
  company :: "string option"
  location :: "string option"
  job_url :: "string option"
  salary :: "string option"
  skills_required :: "jsonb option"
  match_score :: "decimal option"
  source_platform :: "string option"
  saved_at :: "timestamptz option"

record interview_sessions_row = owned +
  job_title :: "string option"
  company :: "string option"
  interview_type :: "string option"
  questions :: "jsonb option"
  answers :: "jsonb option"
  scores :: "jsonb option"
  overall_score :: "decimal option"
  feedback :: "string option"
  conducted_at :: "timestamptz option"

text \<open>
  \<^verbatim>\<open>auth.users\<close> belongs to the platform; the schema reads its key \<^verbatim>\<open>id\<close> (the
  target of every foreign key, here \<open>users_id\<close>), \<^verbatim>\<open>email\<close> and \<^verbatim>\<open>raw_user_meta_data\<close>. The metadata
  object is kept as the association from each key to the text that \<^verbatim>\<open>->>\<close> extracts
  for it (\<open>None\<close> for a JSON null).
\<close>

record auth_users =
  users_id :: uuid
  email :: "string option"
  raw_user_meta_data :: "(string \<times> string option) list option"

definition json_get_text :: "(string \<times> string option) list option \<Rightarrow> string \<Rightarrow> string option" where
  "json_get_text j k =
     (case j of None \<Rightarrow> None
      | Some kvs \<Rightarrow> (case map_of kvs k of None \<Rightarrow> None | Some v \<Rightarrow> v))"

record db =
  users :: "auth_users list"
  profiles :: "profiles_row list"
  applications :: "applications_row list"
  learning_progress :: "learning_progress_row list"
  wellness_logs :: "wellness_logs_row list"
  saved_jobs :: "saved_jobs_row list"
  interview_sessions :: "interview_sessions_row list"

definition empty_db :: db where
  "empty_db = \<lparr>users = [], profiles = [], applications = [], learning_progress = [],
     wellness_logs = [], saved_jobs = [], interview_sessions = []\<rparr>"

section \<open>Row-level security\<close>

datatype entity =
  Profiles | Applications | LearningProgress | WellnessLogs | SavedJobs | InterviewSessions

datatype command = SELECT | INSERT | UPDATE | DELETE

text \<open>The policies the schema creates, by table and command.\<close>

fun has_policy :: "entity \<Rightarrow> command \<Rightarrow> bool" where
  "has_policy Profiles SELECT = True"
| "has_policy Profiles UPDATE = True"
| "has_policy Profiles INSERT = True"
| "has_policy Applications SELECT = True"
| "has_policy Applications INSERT = True"
| "has_policy Applications UPDATE = True"
| "has_policy LearningProgress SELECT = True"
| "has_policy LearningProgress INSERT = True"
| "has_policy LearningProgress UPDATE = True"
| "has_policy WellnessLogs SELECT = True"
| "has_policy WellnessLogs INSERT = True"
| "has_policy SavedJobs SELECT = True"
| "has_policy SavedJobs INSERT = True"
| "has_policy SavedJobs DELETE = True"
| "has_policy InterviewSessions SELECT = True"
| "has_policy InterviewSessions INSERT = True"
| "has_policy _ _ = False"

text \<open>Every policy has the same expression, \<^verbatim>\<open>auth.uid() = user_id\<close>.\<close>

definition own_row :: "session \<Rightarrow> 'a owned_scheme \<Rightarrow> bool option" where
  "own_row s r = sql_eq (auth_uid s) (user_id r)"

text \<open>
  Row security is enabled on all six tables: a command with no policy is denied for
  every row, one with a policy is allowed on the rows where the expression is true.
\<close>

definition policy_permits :: "entity \<Rightarrow> command \<Rightarrow> session \<Rightarrow> 'a owned_scheme \<Rightarrow> bool" where
  "policy_permits e c s r = (has_policy e c \<and> is_true (own_row s r))"

definition rls_select :: "entity \<Rightarrow> session \<Rightarrow> 'a owned_scheme list \<Rightarrow> 'a owned_scheme list" where
  "rls_select e s rows = filter (policy_permits e SELECT s) rows"

section \<open>Constraints\<close>

text \<open>
  Per table: bringing the supplied values to the column types, which raises for an
  \<^verbatim>\<open>INTEGER\<close> or \<^verbatim>\<open>DECIMAL\<close> that does not fit.
\<close>

definition coerce_profiles :: "profiles_row \<Rightarrow> sql_error option" where
  "coerce_profiles r = None"

definition coerce_applications :: "applications_row \<Rightarrow> sql_error option" where
  "coerce_applications r = None"

definition coerce_learning_progress :: "learning_progress_row \<Rightarrow> sql_error option" where
  "coerce_learning_progress r =
     (if integer_fits (time_spent_minutes r) then None else Some NumericValueOutOfRange)"

definition coerce_wellness_logs :: "wellness_logs_row \<Rightarrow> sql_error option" where
  "coerce_wellness_logs r =
     (if integer_fits (energy_level r) \<and> decimal_fits 3 (sleep_hours r) \<and>
         integer_fits (stress_level r)
      then None else Some NumericValueOutOfRange)"

definition coerce_saved_jobs :: "saved_jobs_row \<Rightarrow> sql_error option" where
  "coerce_saved_jobs r =
     (if decimal_fits 5 (match_score r) then None else Some NumericValueOutOfRange)"

definition coerce_interview_sessions :: "interview_sessions_row \<Rightarrow> sql_error option" where
  "coerce_interview_sessions r =
     (if decimal_fits 3 (overall_score r) then None else Some NumericValueOutOfRange)"

text \<open>Per table: the \<^verbatim>\<open>NOT NULL\<close> columns, then the \<^verbatim>\<open>CHECK\<close> constraints.\<close>

definition constraints_profiles :: "profiles_row \<Rightarrow> sql_error option" where
  "constraints_profiles r = None"

definition constraints_applications :: "applications_row \<Rightarrow> sql_error option" where
  "constraints_applications r =
     (if applications_row.job_title r = None \<or> applications_row.company r = None
      then Some NotNullViolation
      else if \<not> check_holds (sql_in (status r)
                [''applied'', ''viewed'', ''interview'', ''offer'', ''rejected''])
      then Some CheckViolation
      else None)"

definition constraints_learning_progress :: "learning_progress_row \<Rightarrow> sql_error option" where
  "constraints_learning_progress r =
     (if milestone_id r = None then Some NotNullViolation else None)"

definition constraints_wellness_logs :: "wellness_logs_row \<Rightarrow> sql_error option" where
  "constraints_wellness_logs r =
     (if \<not> check_holds (sql_in (mood r) [''great'', ''good'', ''neutral'', ''low'', ''struggling''])
      then Some CheckViolation
      else if \<not> check_holds (sql_between (energy_level r) 1 10) then Some CheckViolation
      else if \<not> check_holds (sql_between (stress_level r) 1 10) then Some CheckViolation
      else None)"

definition constraints_saved_jobs :: "saved_jobs_row \<Rightarrow> sql_error option" where
  "constraints_saved_jobs r =
     (if saved_jobs_row.job_title r = None \<or> saved_jobs_row.company r = None
      then Some NotNullViolation else None)"

definition constraints_interview_sessions :: "interview_sessions_row \<Rightarrow> sql_error option" where
  "constraints_interview_sessions r =
     (if \<not> check_holds (sql_in (interview_type r) [''behavioral'', ''technical'', ''hr'', ''case''])
      then Some CheckViolation else None)"

text \<open>
  Keys. Two rows collide on a unique key when all its columns are equal and not NULL:
  the primary key \<^verbatim>\<open>id\<close> on every table, \<^verbatim>\<open>UNIQUE(user_id)\<close> on profiles,
  \<^verbatim>\<open>UNIQUE(user_id, milestone_id)\<close> on learning_progress.
\<close>

definition pk_conflict :: "'a owned_scheme \<Rightarrow> 'a owned_scheme \<Rightarrow> bool" where
  "pk_conflict x r = (row_id x = row_id r)"

definition unique_profiles :: "profiles_row \<Rightarrow> profiles_row \<Rightarrow> bool" where
  "unique_profiles x r = is_true (sql_eq (user_id x) (user_id r))"

definition unique_learning_progress :: "learning_progress_row \<Rightarrow> learning_progress_row \<Rightarrow> bool" where
  "unique_learning_progress x r =
     (is_true (sql_eq (user_id x) (user_id r)) \<and> is_true (sql_eq (milestone_id x) (milestone_id r)))"

definition no_unique :: "'a \<Rightarrow> 'a \<Rightarrow> bool" where
  "no_unique x r = False"

definition key_conflict :: "('a owned_scheme \<Rightarrow> 'a owned_scheme \<Rightarrow> bool) \<Rightarrow> 'a owned_scheme list \<Rightarrow> 'a owned_scheme \<Rightarrow> bool" where
  "key_conflict uniq others r = (\<exists>x \<in> set others. pk_conflict x r \<or> uniq x r)"

text \<open>The foreign key to \<^verbatim>\<open>auth.users(id)\<close>; a NULL reference is not checked.\<close>

definition fk_users :: "auth_users list \<Rightarrow> 'a owned_scheme \<Rightarrow> bool" where
  "fk_users us r = (case user_id r of None \<Rightarrow> True | Some u \<Rightarrow> u \<in> set (map users_id us))"

section \<open>Statements on one table\<close>

text \<open>
  What the new tuple \<open>r\<close> violates against the rows \<open>others\<close> it is stored beside:
  the table constraints, then the unique indexes, then the foreign key.
\<close>

definition tuple_errors :: "auth_users list \<Rightarrow> ('a owned_scheme \<Rightarrow> sql_error option) \<Rightarrow> ('a owned_scheme \<Rightarrow> 'a owned_scheme \<Rightarrow> bool) \<Rightarrow> 'a owned_scheme list \<Rightarrow> 'a owned_scheme \<Rightarrow> sql_error option" where
  "tuple_errors us chk uniq others r =
     (case chk r of Some e \<Rightarrow> Some e
      | None \<Rightarrow>
          if key_conflict uniq others r then Some UniqueViolation
          else if \<not> fk_users us r then Some ForeignKeyViolation
          else None)"

text \<open>
  An \<^verbatim>\<open>INSERT\<close> under row security: the values are brought to the column types when the
  statement's expressions are evaluated, then the policy's \<^verbatim>\<open>WITH CHECK\<close> is applied,
  then the tuple is checked and stored.
\<close>

definition insert_row :: "entity \<Rightarrow> session \<Rightarrow> auth_users list \<Rightarrow> ('a owned_scheme \<Rightarrow> sql_error option) \<Rightarrow> ('a owned_scheme \<Rightarrow> sql_error option) \<Rightarrow> ('a owned_scheme \<Rightarrow> 'a owned_scheme \<Rightarrow> bool) \<Rightarrow> 'a owned_scheme list \<Rightarrow> 'a owned_scheme \<Rightarrow> sql_error + 'a owned_scheme list" where
  "insert_row e s us coerce chk uniq rows r =
     (case coerce r of
        Some err \<Rightarrow> Inl err
      | None \<Rightarrow>
          if \<not> policy_permits e INSERT s r then Inl InsufficientPrivilege
          else case tuple_errors us chk uniq rows r of
                 Some err \<Rightarrow> Inl err
               | None \<Rightarrow> Inr (rows @ [r]))"

text \<open>
  \<^verbatim>\<open>UPDATE t SET (every column) = new WHERE id = rid\<close>. The new values are brought to
  the column types first. The rows it may touch are those the \<^verbatim>\<open>SELECT\<close> and \<^verbatim>\<open>UPDATE\<close>
  policies show; with none, nothing happens and nothing more is raised. The \<^verbatim>\<open>UPDATE\<close>
  policies have no \<^verbatim>\<open>WITH CHECK\<close>, so their \<^verbatim>\<open>USING\<close> expression is applied to the new
  tuple too. Were two rows touched, the second would collide with the first on the
  primary key.
\<close>

definition update_target :: "entity \<Rightarrow> session \<Rightarrow> uuid \<Rightarrow> 'a owned_scheme \<Rightarrow> bool" where
  "update_target e s rid x =
     (row_id x = rid \<and> policy_permits e SELECT s x \<and> policy_permits e UPDATE s x)"

definition update_row :: "entity \<Rightarrow> session \<Rightarrow> auth_users list \<Rightarrow> ('a owned_scheme \<Rightarrow> sql_error option) \<Rightarrow> ('a owned_scheme \<Rightarrow> sql_error option) \<Rightarrow> ('a owned_scheme \<Rightarrow> 'a owned_scheme \<Rightarrow> bool) \<Rightarrow> 'a owned_scheme list \<Rightarrow> uuid \<Rightarrow> 'a owned_scheme \<Rightarrow> sql_error + 'a owned_scheme list" where
  "update_row e s us coerce chk uniq rows rid new =
     (case coerce new of
        Some err \<Rightarrow> Inl err
      | None \<Rightarrow>
          if filter (update_target e s rid) rows = [] then Inr rows
          else if \<not> policy_permits e UPDATE s new then Inl InsufficientPrivilege
          else case chk new of
                 Some err \<Rightarrow> Inl err
               | None \<Rightarrow>
                   if key_conflict uniq (filter (\<lambda>x. \<not> update_target e s rid x) rows) new
                      \<or> 1 < length (filter (update_target e s rid) rows)
                   then Inl UniqueViolation
                   else if \<not> fk_users us new then Inl ForeignKeyViolation
                   else Inr (map (\<lambda>x. if update_target e s rid x then new else x) rows))"

text \<open>\<^verbatim>\<open>DELETE FROM t WHERE id = rid\<close> removes the rows the policies show, silently.\<close>

definition delete_target :: "entity \<Rightarrow> session \<Rightarrow> uuid \<Rightarrow> 'a owned_scheme \<Rightarrow> bool" where
  "delete_target e s rid x =
     (row_id x = rid \<and> policy_permits e SELECT s x \<and> policy_permits e DELETE s x)"

definition delete_row :: "entity \<Rightarrow> session \<Rightarrow> 'a owned_scheme list \<Rightarrow> uuid \<Rightarrow> 'a owned_scheme list" where
  "delete_row e s rows rid = filter (\<lambda>x. \<not> delete_target e s rid x) rows"

section \<open>Statements on the database\<close>

definition insert_profiles :: "session \<Rightarrow> db \<Rightarrow> profiles_row \<Rightarrow> sql_error + db" where
  "insert_profiles s d r =
     (case insert_row Profiles s (users d) coerce_profiles constraints_profiles unique_profiles (profiles d) r of
        Inl err \<Rightarrow> Inl err
      | Inr rows \<Rightarrow> Inr (d\<lparr>profiles := rows\<rparr>))"

definition insert_applications :: "session \<Rightarrow> db \<Rightarrow> applications_row \<Rightarrow> sql_error + db" where
  "insert_applications s d r =
     (case insert_row Applications s (users d) coerce_applications constraints_applications no_unique (applications d) r of
        Inl err \<Rightarrow> Inl err
      | Inr rows \<Rightarrow> Inr (d\<lparr>applications := rows\<rparr>))"

definition insert_learning_progress :: "session \<Rightarrow> db \<Rightarrow> learning_progress_row \<Rightarrow> sql_error + db" where
  "insert_learning_progress s d r =
     (case insert_row LearningProgress s (users d) coerce_learning_progress constraints_learning_progress unique_learning_progress (learning_progress d) r of
        Inl err \<Rightarrow> Inl err
      | Inr rows \<Rightarrow> Inr (d\<lparr>learning_progress := rows\<rparr>))"

definition insert_wellness_logs :: "session \<Rightarrow> db \<Rightarrow> wellness_logs_row \<Rightarrow> sql_error + db" where
  "insert_wellness_logs s d r =
     (case insert_row WellnessLogs s (users d) coerce_wellness_logs constraints_wellness_logs no_unique (wellness_logs d) r of
        Inl err \<Rightarrow> Inl err
      | Inr rows \<Rightarrow> Inr (d\<lparr>wellness_logs := rows\<rparr>))"

definition insert_saved_jobs :: "session \<Rightarrow> db \<Rightarrow> saved_jobs_row \<Rightarrow> sql_error + db" where
  "insert_saved_jobs s d r =
     (case insert_row SavedJobs s (users d) coerce_saved_jobs constraints_saved_jobs no_unique (saved_jobs d) r of
        Inl err \<Rightarrow> Inl err
      | Inr rows \<Rightarrow> Inr (d\<lparr>saved_jobs := rows\<rparr>))"

definition insert_interview_sessions :: "session \<Rightarrow> db \<Rightarrow> interview_sessions_row \<Rightarrow> sql_error + db" where
  "insert_interview_sessions s d r =
     (case insert_row InterviewSessions s (users d) coerce_interview_sessions constraints_interview_sessions no_unique (interview_sessions d) r of
        Inl err \<Rightarrow> Inl err
      | Inr rows \<Rightarrow> Inr (d\<lparr>interview_sessions := rows\<rparr>))"

definition update_profiles :: "session \<Rightarrow> db \<Rightarrow> uuid \<Rightarrow> profiles_row \<Rightarrow> sql_error + db" where
  "update_profiles s d rid new =
     (case update_row Profiles s (users d) coerce_profiles constraints_profiles unique_profiles (profiles d) rid new of
        Inl err \<Rightarrow> Inl err
      | Inr rows \<Rightarrow> Inr (d\<lparr>profiles := rows\<rparr>))"

definition update_applications :: "session \<Rightarrow> db \<Rightarrow> uuid \<Rightarrow> applications_row \<Rightarrow> sql_error + db" where
  "update_applications s d rid new =
     (case update_row Applications s (users d) coerce_applications constraints_applications no_unique (applications d) rid new of
        Inl err \<Rightarrow> Inl err
      | Inr rows \<Rightarrow> Inr (d\<lparr>applications := rows\<rparr>))"

definition update_learning_progress :: "session \<Rightarrow> db \<Rightarrow> uuid \<Rightarrow> learning_progress_row \<Rightarrow> sql_error + db" where
  "update_learning_progress s d rid new =
     (case update_row LearningProgress s (users d) coerce_learning_progress constraints_learning_progress unique_learning_progress (learning_progress d) rid new of
        Inl err \<Rightarrow> Inl err
      | Inr rows \<Rightarrow> Inr (d\<lparr>learning_progress := rows\<rparr>))"

definition update_wellness_logs :: "session \<Rightarrow> db \<Rightarrow> uuid \<Rightarrow> wellness_logs_row \<Rightarrow> sql_error + db" where
  "update_wellness_logs s d rid new =
     (case update_row WellnessLogs s (users d) coerce_wellness_logs constraints_wellness_logs no_unique (wellness_logs d) rid new of
        Inl err \<Rightarrow> Inl err
      | Inr rows \<Rightarrow> Inr (d\<lparr>wellness_logs := rows\<rparr>))"

definition update_saved_jobs :: "session \<Rightarrow> db \<Rightarrow> uuid \<Rightarrow> saved_jobs_row \<Rightarrow> sql_error + db" where
  "update_saved_jobs s d rid new =
     (case update_row SavedJobs s (users d) coerce_saved_jobs constraints_saved_jobs no_unique (saved_jobs d) rid new of
        Inl err \<Rightarrow> Inl err
      | Inr rows \<Rightarrow> Inr (d\<lparr>saved_jobs := rows\<rparr>))"

definition update_interview_sessions :: "session \<Rightarrow> db \<Rightarrow> uuid \<Rightarrow> interview_sessions_row \<Rightarrow> sql_error + db" where
  "update_interview_sessions s d rid new =
     (case update_row InterviewSessions s (users d) coerce_interview_sessions constraints_interview_sessions no_unique (interview_sessions d) rid new of
        Inl err \<Rightarrow> Inl err
      | Inr rows \<Rightarrow> Inr (d\<lparr>interview_sessions := rows\<rparr>))"

fun delete_from :: "entity \<Rightarrow> session \<Rightarrow> db \<Rightarrow> uuid \<Rightarrow> db" where
  "delete_from Profiles s d rid = d\<lparr>profiles := delete_row Profiles s (profiles d) rid\<rparr>"
| "delete_from Applications s d rid = d\<lparr>applications := delete_row Applications s (applications d) rid\<rparr>"
| "delete_from LearningProgress s d rid =
     d\<lparr>learning_progress := delete_row LearningProgress s (learning_progress d) rid\<rparr>"
| "delete_from WellnessLogs s d rid = d\<lparr>wellness_logs := delete_row WellnessLogs s (wellness_logs d) rid\<rparr>"
| "delete_from SavedJobs s d rid = d\<lparr>saved_jobs := delete_row SavedJobs s (saved_jobs d) rid\<rparr>"
| "delete_from InterviewSessions s d rid =
     d\<lparr>interview_sessions := delete_row InterviewSessions s (interview_sessions d) rid\<rparr>"

section \<open>Tenant creation and deletion\<close>

text \<open>
  \<^verbatim>\<open>handle_new_user\<close> is \<^verbatim>\<open>SECURITY DEFINER\<close>: its insert runs as the owner of the
  table, whom the policies do not bind. It names three columns; the others take their
  defaults, and \<open>gen_id\<close> is what \<^verbatim>\<open>gen_random_uuid()\<close> draws.
\<close>

definition new_profile :: "session \<Rightarrow> auth_users \<Rightarrow> uuid \<Rightarrow> profiles_row" where
  "new_profile s new gen_id =
     \<lparr>row_id = gen_id, user_id = Some (users_id new),
      name = json_get_text (raw_user_meta_data new) ''name'',
      profiles_row.email = auth_users.email new,
      github_username = None, linkedin_url = None,
      skills = Some ''[]'', experience = Some ''[]'', education = Some ''[]'',
      career_goals = Some ''[]'', resume_text = None, github_data = None,
      created_at = Some (now s), profiles_row.updated_at = Some (now s)\<rparr>"

definition handle_new_user :: "session \<Rightarrow> db \<Rightarrow> auth_users \<Rightarrow> uuid \<Rightarrow> sql_error + db" where
  "handle_new_user s d new gen_id =
     (case tuple_errors (users d) constraints_profiles unique_profiles (profiles d)
             (new_profile s new gen_id) of
        Some err \<Rightarrow> Inl err
      | None \<Rightarrow> Inr (d\<lparr>profiles := profiles d @ [new_profile s new gen_id]\<rparr>))"

text \<open>
  The trigger \<^verbatim>\<open>on_auth_user_created\<close> runs \<^verbatim>\<open>handle_new_user\<close> after each insert on
  \<^verbatim>\<open>auth.users\<close>, in the transaction of that insert: when the function raises, the
  insert is undone with it.
\<close>

text \<open>
  \<^verbatim>\<open>id\<close> is the key of \<^verbatim>\<open>auth.users\<close> that the foreign keys reference, so no two users
  share it.
\<close>

definition insert_auth_users :: "session \<Rightarrow> db \<Rightarrow> auth_users \<Rightarrow> uuid \<Rightarrow> sql_error + db" where
  "insert_auth_users s d new gen_id =
     (if users_id new \<in> set (map users_id (users d)) then Inl UniqueViolation
      else handle_new_user s (d\<lparr>users := users d @ [new]\<rparr>) new gen_id)"

text \<open>Deleting a user: \<^verbatim>\<open>ON DELETE CASCADE\<close> on the \<^verbatim>\<open>user_id\<close> of each of the six tables.\<close>

definition cascade :: "uuid \<Rightarrow> 'a owned_scheme list \<Rightarrow> 'a owned_scheme list" where
  "cascade t rows = filter (\<lambda>r. user_id r \<noteq> Some t) rows"

definition delete_auth_users :: "db \<Rightarrow> uuid \<Rightarrow> db" where
  "delete_auth_users d t =
     \<lparr>users = filter (\<lambda>u. users_id u \<noteq> t) (users d),
      profiles = cascade t (profiles d),
      applications = cascade t (applications d),
      learning_progress = cascade t (learning_progress d),
      wellness_logs = cascade t (wellness_logs d),
      saved_jobs = cascade t (saved_jobs d),
      interview_sessions = cascade t (interview_sessions d)\<rparr>"

section \<open>Statements, uniformly\<close>

datatype any_row =
    PRow profiles_row
  | ARow applications_row
  | LRow learning_progress_row
  | WRow wellness_logs_row
  | SRow saved_jobs_row
  | IRow interview_sessions_row

fun entity_of :: "any_row \<Rightarrow> entity" where
  "entity_of (PRow r) = Profiles"
| "entity_of (ARow r) = Applications"
| "entity_of (LRow r) = LearningProgress"
| "entity_of (WRow r) = WellnessLogs"
| "entity_of (SRow r) = SavedJobs"
| "entity_of (IRow r) = InterviewSessions"

fun owner_of :: "any_row \<Rightarrow> uuid option" where
  "owner_of (PRow r) = user_id r"
| "owner_of (ARow r) = user_id r"
| "owner_of (LRow r) = user_id r"
| "owner_of (WRow r) = user_id r"
| "owner_of (SRow r) = user_id r"
| "owner_of (IRow r) = user_id r"

fun id_of :: "any_row \<Rightarrow> uuid" where
  "id_of (PRow r) = row_id r"
| "id_of (ARow r) = row_id r"
| "id_of (LRow r) = row_id r"
| "id_of (WRow r) = row_id r"
| "id_of (SRow r) = row_id r"
| "id_of (IRow r) = row_id r"

fun coerce_row :: "any_row \<Rightarrow> sql_error option" where
  "coerce_row (PRow r) = coerce_profiles r"
| "coerce_row (ARow r) = coerce_applications r"
| "coerce_row (LRow r) = coerce_learning_progress r"
| "coerce_row (WRow r) = coerce_wellness_logs r"
| "coerce_row (SRow r) = coerce_saved_jobs r"
| "coerce_row (IRow r) = coerce_interview_sessions r"

fun table_of :: "entity \<Rightarrow> db \<Rightarrow> any_row list" where
  "table_of Profiles d = map PRow (profiles d)"
| "table_of Applications d = map ARow (applications d)"
| "table_of LearningProgress d = map LRow (learning_progress d)"
| "table_of WellnessLogs d = map WRow (wellness_logs d)"
| "table_of SavedJobs d = map SRow (saved_jobs d)"
| "table_of InterviewSessions d = map IRow (interview_sessions d)"

text \<open>\<^verbatim>\<open>SELECT * FROM e\<close> in session \<open>s\<close>: the rows the table's \<^verbatim>\<open>SELECT\<close> policy shows.\<close>

fun select_from :: "entity \<Rightarrow> session \<Rightarrow> db \<Rightarrow> any_row list" where
  "select_from Profiles s d = map PRow (rls_select Profiles s (profiles d))"
| "select_from Applications s d = map ARow (rls_select Applications s (applications d))"
| "select_from LearningProgress s d = map LRow (rls_select LearningProgress s (learning_progress d))"
| "select_from WellnessLogs s d = map WRow (rls_select WellnessLogs s (wellness_logs d))"
| "select_from SavedJobs s d = map SRow (rls_select SavedJobs s (saved_jobs d))"
| "select_from InterviewSessions s d = map IRow (rls_select InterviewSessions s (interview_sessions d))"

datatype stmt =
    Insert any_row
  | Update uuid any_row
  | Delete entity uuid
  | CreateUser auth_users uuid
  | DeleteUser uuid

text \<open>
  \<open>Insert\<close>, \<open>Update\<close> and \<open>Delete\<close> are a tenant's statements, under row security;
  \<open>CreateUser\<close> and \<open>DeleteUser\<close> are the platform's, on \<^verbatim>\<open>auth.users\<close>.
\<close>

fun exec :: "session \<Rightarrow> db \<Rightarrow> stmt \<Rightarrow> sql_error + db" where
  "exec s d (Insert (PRow r)) = insert_profiles s d r"
| "exec s d (Insert (ARow r)) = insert_applications s d r"
| "exec s d (Insert (LRow r)) = insert_learning_progress s d r"
| "exec s d (Insert (WRow r)) = insert_wellness_logs s d r"
| "exec s d (Insert (SRow r)) = insert_saved_jobs s d r"
| "exec s d (Insert (IRow r)) = insert_interview_sessions s d r"
| "exec s d (Update rid (PRow r)) = update_profiles s d rid r"
| "exec s d (Update rid (ARow r)) = update_applications s d rid r"
| "exec s d (Update rid (LRow r)) = update_learning_progress s d rid r"
| "exec s d (Update rid (WRow r)) = update_wellness_logs s d rid r"
| "exec s d (Update rid (SRow r)) = update_saved_jobs s d rid r"
| "exec s d (Update rid (IRow r)) = update_interview_sessions s d rid r"
| "exec s d (Delete e rid) = Inr (delete_from e s d rid)"
| "exec s d (CreateUser new gen_id) = insert_auth_users s d new gen_id"
| "exec s d (DeleteUser t) = Inr (delete_auth_users d t)"

text \<open>A statement that raises leaves the database as it was.\<close>

definition run :: "session \<Rightarrow> db \<Rightarrow> stmt \<Rightarrow> sql_error option \<times> db" where
  "run s d st = (case exec s d st of Inl err \<Rightarrow> (Some err, d) | Inr d' \<Rightarrow> (None, d'))"

text \<open>The databases that statements build, from the empty one.\<close>

inductive reachable :: "db \<Rightarrow> bool" where
  reachable_empty: "reachable empty_db"
| reachable_exec: "reachable d \<Longrightarrow> exec s d st = Inr d' \<Longrightarrow> reachable d'"

section \<open>Helper functions\<close>

text \<open>
  Both functions run with the rights of the caller, so their queries see the rows the
  \<^verbatim>\<open>SELECT\<close> policy shows to the session.
\<close>

record application_stats =
  total :: int
  applied :: int
  interviews :: int
  offers :: int
  rejected :: int

text \<open>\<^verbatim>\<open>COUNT(*) FILTER (WHERE status = v)\<close>.\<close>

definition count_status :: "string \<Rightarrow> applications_row list \<Rightarrow> int" where
  "count_status v rows = int (length (filter (\<lambda>r. is_true (sql_eq (status r) (Some v))) rows))"

definition get_application_stats :: "session \<Rightarrow> db \<Rightarrow> uuid option \<Rightarrow> sql_error + application_stats" where
  "get_application_stats s d p_user_id =
     (let rows = filter (\<lambda>r. is_true (sql_eq (user_id r) p_user_id))
                   (rls_select Applications s (applications d))
      in case int4 (int (length rows)) of Inl err \<Rightarrow> Inl err | Inr t \<Rightarrow>
         (case int4 (count_status ''applied'' rows) of Inl err \<Rightarrow> Inl err | Inr a \<Rightarrow>
         (case int4 (count_status ''interview'' rows) of Inl err \<Rightarrow> Inl err | Inr i \<Rightarrow>
         (case int4 (count_status ''offer'' rows) of Inl err \<Rightarrow> Inl err | Inr f \<Rightarrow>
         (case int4 (count_status ''rejected'' rows) of Inl err \<Rightarrow> Inl err | Inr rj \<Rightarrow>
            Inr \<lparr>total = t, applied = a, interviews = i, offers = f, rejected = rj\<rparr>)))))"

text \<open>The \<^verbatim>\<open>WHERE\<close> clause of the query inside the loop of \<^verbatim>\<open>get_learning_streak\<close>.\<close>

definition qualifies :: "session \<Rightarrow> uuid option \<Rightarrow> date \<Rightarrow> learning_progress_row \<Rightarrow> bool" where
  "qualifies s p_user_id check_date r =
     is_true (sql_and (sql_and (sql_eq (user_id r) p_user_id)
                (sql_eq (map_option (to_date s) (learning_progress_row.updated_at r)) (Some check_date)))
                (sql_eq (completed r) (Some True)))"

definition has_activity :: "session \<Rightarrow> db \<Rightarrow> uuid option \<Rightarrow> date \<Rightarrow> bool" where
  "has_activity s d p_user_id check_date =
     (\<exists>r \<in> set (rls_select LearningProgress s (learning_progress d)). qualifies s p_user_id check_date r)"

function streak_loop :: "session \<Rightarrow> db \<Rightarrow> uuid option \<Rightarrow> int \<Rightarrow> date \<Rightarrow> sql_error + int" where
  "streak_loop s d p_user_id streak check_date =
     (if \<not> has_activity s d p_user_id check_date then Inr streak
      else case int4 (streak + 1) of
             Inl err \<Rightarrow> Inl err
           | Inr streak' \<Rightarrow>
               (case date_minus_day check_date of
                  Inl err \<Rightarrow> Inl err
                | Inr check_date' \<Rightarrow> streak_loop s d p_user_id streak' check_date'))"
  by pat_completeness auto
termination
proof (relation "measure (\<lambda>(s, d, p, streak, check_date).
    length (filter (\<lambda>r. \<exists>ts. learning_progress_row.updated_at r = Some ts \<and> to_date s ts \<le> check_date)
      (learning_progress d)))")
  show "wf (measure (\<lambda>(s, d, p, streak, check_date).
    length (filter (\<lambda>r. \<exists>ts. learning_progress_row.updated_at r = Some ts \<and> to_date s ts \<le> check_date)
      (learning_progress d))))"
    by simp
next
  fix s :: session and d :: db and p_user_id :: "uuid option" and streak :: int
    and check_date :: date and x2 :: int and x2a :: date
  assume act: "\<not> \<not> has_activity s d p_user_id check_date"
    and day: "date_minus_day check_date = Inr x2a"
  let ?P = "\<lambda>c r. \<exists>ts. learning_progress_row.updated_at r = Some ts \<and> to_date s ts \<le> c"
  let ?xs = "learning_progress d"
  from day have x2a: "x2a = check_date - 1"
    by (auto simp: date_minus_day_def split: if_splits)
  from act obtain r where r: "r \<in> set ?xs" "qualifies s p_user_id check_date r"
    by (auto simp: has_activity_def rls_select_def)
  from r(2) obtain ts where ts: "learning_progress_row.updated_at r = Some ts" "to_date s ts = check_date"
    by (cases "learning_progress_row.updated_at r")
       (auto simp: qualifies_def is_true_def sql_and_def sql_eq_def split: option.splits if_splits)
  have in_big: "r \<in> set (filter (?P check_date) ?xs)"
    using r(1) ts by simp
  have not_small: "\<not> ?P (check_date - 1) r"
    using ts by simp
  have "filter (?P (check_date - 1)) ?xs = filter (?P (check_date - 1)) (filter (?P check_date) ?xs)"
    by (auto intro: filter_cong)
  moreover have "length (filter (?P (check_date - 1)) (filter (?P check_date) ?xs))
      < length (filter (?P check_date) ?xs)"
    using in_big not_small by (rule length_filter_less)
  ultimately show "((s, d, p_user_id, x2, x2a), (s, d, p_user_id, streak, check_date))
      \<in> measure (\<lambda>(s, d, p, streak, check_date).
          length (filter (\<lambda>r. \<exists>ts. learning_progress_row.updated_at r = Some ts \<and> to_date s ts \<le> check_date)
            (learning_progress d)))"
    unfolding x2a by simp
qed

declare streak_loop.simps [simp del]

definition get_learning_streak :: "session \<Rightarrow> db \<Rightarrow> uuid option \<Rightarrow> sql_error + int" where
  "get_learning_streak s d p_user_id = streak_loop s d p_user_id 0 (CURRENT_DATE s)"







text \<open>The statements a tenant's session issues.\<close>

fun tenant_stmt :: "stmt \<Rightarrow> bool" where
  "tenant_stmt (Insert r) = True"
| "tenant_stmt (Update rid r) = True"
| "tenant_stmt (Delete e rid) = True"
| "tenant_stmt (CreateUser new gen_id) = False"
| "tenant_stmt (DeleteUser t) = False"

section \<open>Properties of a database\<close>

text \<open>Every application row satisfies the constraints of its table.\<close>

definition applications_valid :: "db \<Rightarrow> bool" where
  "applications_valid d = (\<forall>r \<in> set (applications d). constraints_applications r = None)"

text \<open>The row with id \<open>rid\<close> that tenant \<open>t\<close> owns, in a table and among rows of any table.\<close>

definition row_of :: "uuid \<Rightarrow> uuid \<Rightarrow> 'a owned_scheme \<Rightarrow> bool" where
  "row_of t rid x = (row_id x = rid \<and> user_id x = Some t)"

definition any_row_of :: "uuid \<Rightarrow> uuid \<Rightarrow> any_row \<Rightarrow> bool" where
  "any_row_of t rid x = (id_of x = rid \<and> owner_of x = Some t)"

text \<open>
  A row meets the constraints of its table: its values fit the column types, and the
  tuple violates no \<^verbatim>\<open>NOT NULL\<close>, \<^verbatim>\<open>CHECK\<close>, key or foreign key beside the rows of the
  table that \<open>beside\<close> selects (all of them for an insert, all but the replaced one for
  an update).
\<close>

fun meets_constraints :: "db \<Rightarrow> (any_row \<Rightarrow> bool) \<Rightarrow> any_row \<Rightarrow> bool" where
  "meets_constraints d beside (PRow r) =
     (coerce_profiles r = None \<and>
      tuple_errors (users d) constraints_profiles unique_profiles
        (filter (\<lambda>x. beside (PRow x)) (profiles d)) r = None)"
| "meets_constraints d beside (ARow r) =
     (coerce_applications r = None \<and>
      tuple_errors (users d) constraints_applications no_unique
        (filter (\<lambda>x. beside (ARow x)) (applications d)) r = None)"
| "meets_constraints d beside (LRow r) =
     (coerce_learning_progress r = None \<and>
      tuple_errors (users d) constraints_learning_progress unique_learning_progress
        (filter (\<lambda>x. beside (LRow x)) (learning_progress d)) r = None)"
| "meets_constraints d beside (WRow r) =
     (coerce_wellness_logs r = None \<and>
      tuple_errors (users d) constraints_wellness_logs no_unique
        (filter (\<lambda>x. beside (WRow x)) (wellness_logs d)) r = None)"
| "meets_constraints d beside (SRow r) =
     (coerce_saved_jobs r = None \<and>
      tuple_errors (users d) constraints_saved_jobs no_unique
        (filter (\<lambda>x. beside (SRow x)) (saved_jobs d)) r = None)"
| "meets_constraints d beside (IRow r) =
     (coerce_interview_sessions r = None \<and>
      tuple_errors (users d) constraints_interview_sessions no_unique
        (filter (\<lambda>x. beside (IRow x)) (interview_sessions d)) r = None)"

text \<open>No tenant has two profiles; no tenant has two progress rows for one milestone.\<close>

definition profiles_unique :: "db \<Rightarrow> bool" where
  "profiles_unique d =
     (\<forall>t. length (filter (\<lambda>r. user_id r = Some t) (profiles d)) \<le> 1)"

definition learning_progress_unique :: "db \<Rightarrow> bool" where
  "learning_progress_unique d =
     (\<forall>t m. length (filter (\<lambda>r. user_id r = Some t \<and> milestone_id r = Some m)
                 (learning_progress d)) \<le> 1)"

text \<open>
  The number of application rows of tenant \<open>t\<close>, and the number of those whose status is
  \<open>st\<close> (a value, or absent).
\<close>

definition count_applications :: "db \<Rightarrow> uuid \<Rightarrow> int" where
  "count_applications d t = int (length (filter (\<lambda>r. user_id r = Some t) (applications d)))"

definition count_applications_with :: "db \<Rightarrow> uuid \<Rightarrow> string option \<Rightarrow> int" where
  "count_applications_with d t st =
     int (length (filter (\<lambda>r. user_id r = Some t \<and> status r = st) (applications d)))"

text \<open>
  Tenant \<open>t\<close> has a learning_progress row with completed = true whose updated_at falls
  on day \<open>day\<close> of the session's calendar; and the number of the tenant's completed rows
  that carry an update time; before it, the number of all the tenant's progress rows.
\<close>

definition active_day :: "session \<Rightarrow> db \<Rightarrow> uuid \<Rightarrow> date \<Rightarrow> bool" where
  "active_day s d t day =
     (\<exists>r \<in> set (learning_progress d). user_id r = Some t \<and> completed r = Some True \<and>
        map_option (to_date s) (learning_progress_row.updated_at r) = Some day)"




text \<open>
  The counter of the loop is within \<^verbatim>\<open>INTEGER\<close>, with room for a day for every \<^verbatim>\<open>DATE\<close>
  still ahead of \<open>c\<close>.
\<close>

definition streak_in_range :: "int \<Rightarrow> date \<Rightarrow> bool" where
  "streak_in_range k c =
     (0 \<le> k \<and> k < INT4_MAX \<and> (c < TIMESTAMP_END_DATE \<longrightarrow> k + (c - DATE_MIN) < INT4_MAX))"

section \<open>Example data\<close>

definition example_session :: "uuid \<Rightarrow> timestamptz \<Rightarrow> session" where
  "example_session t ts = \<lparr>auth_uid = Some t, now = ts, time_zone = (\<lambda>_. 0)\<rparr>"

definition example_user :: "uuid \<Rightarrow> auth_users" where
  "example_user t =
     \<lparr>users_id = t, email = Some ''ada@example.org'',
      raw_user_meta_data = Some [(''name'', Some ''Ada'')]\<rparr>"

definition example_application :: "uuid \<Rightarrow> uuid \<Rightarrow> string option \<Rightarrow> applications_row" where
  "example_application rid t st =
     \<lparr>row_id = rid, user_id = Some t,
      applications_row.job_title = Some ''Engineer'', applications_row.company = Some ''Acme'',
      applications_row.job_url = None, status = st, applied_at = Some 0,
      applications_row.updated_at = Some 0, applications_row.notes_col = None,
      resume_version = None, cover_letter = None\<rparr>"

definition example_progress :: "uuid \<Rightarrow> uuid \<Rightarrow> string \<Rightarrow> bool \<Rightarrow> timestamptz \<Rightarrow> learning_progress_row" where
  "example_progress rid t m c ts =
     \<lparr>row_id = rid, user_id = Some t, roadmap_id = None, milestone_id = Some m,
      completed = Some c, time_spent_minutes = Some 0, learning_progress_row.notes_col = None,
      completed_at = None, learning_progress_row.updated_at = Some ts\<rparr>"

definition example_wellness :: "uuid \<Rightarrow> uuid \<Rightarrow> string option \<Rightarrow> int option \<Rightarrow> int option \<Rightarrow> wellness_logs_row" where
  "example_wellness rid t m en st =
     \<lparr>row_id = rid, user_id = Some t, mood = m, energy_level = en, sleep_hours = None,
      stress_level = st, wellness_logs_row.notes_col = None, logged_at = Some 0\<rparr>"

definition example_saved_job :: "uuid \<Rightarrow> uuid \<Rightarrow> saved_jobs_row" where
  "example_saved_job rid t =
     \<lparr>row_id = rid, user_id = Some t,
      saved_jobs_row.job_title = Some ''Engineer'', saved_jobs_row.company = Some ''Acme'',
      location = None, saved_jobs_row.job_url = None, salary = None,
      skills_required = Some ''[]'', match_score = Some 9150, source_platform = None,
      saved_at = Some 0\<rparr>"

definition example_interview :: "uuid \<Rightarrow> uuid \<Rightarrow> string option \<Rightarrow> interview_sessions_row" where
  "example_interview rid t ty =
     \<lparr>row_id = rid, user_id = Some t,
      interview_sessions_row.job_title = None, interview_sessions_row.company = None,
      interview_type = ty, questions = Some ''[]'', answers = Some ''[]'', scores = Some ''[]'',
      overall_score = None, feedback = None, conducted_at = Some 0\<rparr>"

text \<open>Two tenants after sign-up: each has the profile the trigger made, and no other row.\<close>

definition example_db :: db where
  "example_db = empty_db\<lparr>users := [example_user 1, example_user 2],
     profiles := [new_profile (example_session 1 0) (example_user 1) 101,
                  new_profile (example_session 2 0) (example_user 2) 102]\<rparr>"

text \<open>
  Tenant 1 has applied twice and has one interview and one offer; tenant 2 has one
  rejection.
\<close>

definition example_stats_db :: db where
  "example_stats_db = example_db\<lparr>applications :=
     [example_application 10 1 (Some ''applied''), example_application 11 1 (Some ''applied''),
      example_application 12 1 (Some ''interview''), example_application 13 1 (Some ''offer''),
      example_application 14 2 (Some ''rejected'')]\<rparr>"

text \<open>Each tenant has one application and one saved job.\<close>

definition example_writes_db :: db where
  "example_writes_db = example_db\<lparr>applications :=
       [example_application 10 1 (Some ''applied''), example_application 14 2 (Some ''rejected'')],
     saved_jobs := [example_saved_job 50 1, example_saved_job 51 2]\<rparr>"

text \<open>
  Day 10 at noon. Tenant 1 completed a milestone on each of the days 10, 9, 8 and 7, none
  on day 6, and one on day 5; tenant 2 completed one on day 6.
\<close>

definition example_noon :: "int \<Rightarrow> timestamptz" where
  "example_noon day = day * usecs_per_day + 43200000000"

definition example_streak_db :: db where
  "example_streak_db = example_db\<lparr>learning_progress :=
     [example_progress 40 1 ''m1'' True (example_noon 5),
      example_progress 41 1 ''m2'' True (example_noon 7),
      example_progress 42 1 ''m3'' True (example_noon 8),
      example_progress 43 2 ''m1'' True (example_noon 6),
      example_progress 44 1 ''m4'' True (example_noon 9),
      example_progress 45 1 ''m5'' True (example_noon 10),
      example_progress 46 1 ''m6'' False (example_noon 6)]\<rparr>"

text \<open>
  Tenant 1 has completed one milestone a day on each of the last \<open>n\<close> days up to \<open>today\<close>.
  In the long history the days go back from 2026-11-02 (day 20759) to the first
  \<^verbatim>\<open>DATE\<close>, 2461348 days in all.
\<close>

definition example_history :: "nat \<Rightarrow> int \<Rightarrow> learning_progress_row list" where
  "example_history n today =
     map (\<lambda>k. example_progress (1000 + k) 1 (replicate (Suc k) CHR ''m'') True
                (example_noon (today - int k))) [0..<n]"

definition example_long_db :: db where
  "example_long_db = example_db\<lparr>learning_progress := example_history 2461348 20759\<rparr>"

section \<open>Basic facts\<close>

lemmas example_defs = example_session_def example_user_def example_application_def
  example_progress_def example_wellness_def example_saved_job_def example_interview_def
  example_db_def empty_db_def

lemmas sql_defs = is_true_def check_holds_def sql_eq_def sql_in_def sql_between_def sql_and_def

lemmas constraints_defs = constraints_profiles_def constraints_applications_def
  constraints_learning_progress_def constraints_wellness_logs_def constraints_saved_jobs_def
  constraints_interview_sessions_def

lemmas coerce_defs = coerce_profiles_def coerce_applications_def coerce_learning_progress_def
  coerce_wellness_logs_def coerce_saved_jobs_def coerce_interview_sessions_def
  integer_fits_def decimal_fits_def INT4_MAX_def INT4_MIN_def

lemmas key_defs = key_conflict_def pk_conflict_def no_unique_def unique_profiles_def
  unique_learning_progress_def fk_users_def

lemmas insert_defs = insert_profiles_def insert_applications_def insert_learning_progress_def
  insert_wellness_logs_def insert_saved_jobs_def insert_interview_sessions_def

lemmas update_defs = update_profiles_def update_applications_def update_learning_progress_def
  update_wellness_logs_def update_saved_jobs_def update_interview_sessions_def

lemmas eval_defs = insert_defs insert_row_def tuple_errors_def key_defs policy_permits_def
  own_row_def sql_defs constraints_defs coerce_defs

lemma policy_permits_iff:
  "policy_permits e c s r \<longleftrightarrow> has_policy e c \<and> (\<exists>t. auth_uid s = Some t \<and> user_id r = Some t)"
  by (auto simp: policy_permits_def own_row_def is_true_def sql_eq_def split: option.splits)

lemma has_policy_SELECT [simp]: "has_policy e SELECT"
  by (cases e) simp_all

lemma has_policy_INSERT [simp]: "has_policy e INSERT"
  by (cases e) simp_all

lemma rls_select_eq:
  "auth_uid s = Some t \<Longrightarrow> rls_select e s rows = filter (\<lambda>r. user_id r = Some t) rows"
  unfolding rls_select_def by (rule filter_cong) (auto simp: policy_permits_iff)

lemma select_from_eq:
  "auth_uid s = Some t \<Longrightarrow> select_from e s d = filter (\<lambda>r. owner_of r = Some t) (table_of e d)"
  by (cases e) (simp_all add: rls_select_eq filter_map comp_def)

lemma insert_row_Inr:
  "insert_row e s us co chk uniq rows r = Inr rows' \<longleftrightarrow>
     co r = None \<and> policy_permits e INSERT s r \<and> tuple_errors us chk uniq rows r = None \<and>
     rows' = rows @ [r]"
  by (auto simp: insert_row_def split: option.splits)

lemma exec_Insert_table:
  "exec s d (Insert r) = Inr d' \<Longrightarrow>
     table_of e d' = (if e = entity_of r then table_of e d @ [r] else table_of e d)"
  by (cases r; cases e) (auto simp: insert_defs insert_row_Inr split: sum.splits)

lemma handle_new_user_Inr:
  "handle_new_user s d new g = Inr d' \<longleftrightarrow>
     tuple_errors (users d) constraints_profiles unique_profiles (profiles d) (new_profile s new g) = None
     \<and> d' = d\<lparr>profiles := profiles d @ [new_profile s new g]\<rparr>"
  by (auto simp: handle_new_user_def split: option.splits)

lemma exec_CreateUser_table:
  "exec s d (CreateUser new g) = Inr d' \<Longrightarrow>
     table_of e d' = (if e = Profiles then table_of e d @ [PRow (new_profile s new g)] else table_of e d)"
  by (cases e) (auto simp: insert_auth_users_def handle_new_user_Inr split: if_splits)

lemma tuple_errors_None:
  "tuple_errors us chk uniq others r = None \<longleftrightarrow>
     chk r = None \<and> \<not> key_conflict uniq others r \<and> fk_users us r"
  by (auto simp: tuple_errors_def split: option.splits)

lemma update_row_Inr:
  "update_row e s us co chk uniq rows rid new = Inr rows' \<Longrightarrow>
     rows' = rows \<or>
     (policy_permits e UPDATE s new \<and> chk new = None \<and>
      \<not> key_conflict uniq (filter (\<lambda>x. \<not> update_target e s rid x) rows) new \<and>
      length (filter (update_target e s rid) rows) = 1 \<and> fk_users us new \<and>
      rows' = map (\<lambda>x. if update_target e s rid x then new else x) rows)"
  by (cases "filter (update_target e s rid) rows")
     (auto simp: update_row_def split: if_splits option.splits)

section \<open>Tenant isolation of reads\<close>

text \<open>
  C1. In a session of tenant \<open>t2\<close>, a read of any of the six entities returns exactly the
  rows of the table whose owner column is \<open>t2\<close>, so only rows owned by \<open>t2\<close>. A row that
  an insert (or the sign-up trigger) creates with another owner does not show in it, and
  the read returns what it returned before the row existed: the row is
  indistinguishable from a non-existent one. A read returns a list of rows and has no
  error result, so a row of another tenant is simply not found, never refused.
\<close>

theorem tenant_read_isolation:
  "auth_uid s = Some t2 \<Longrightarrow>
     select_from e s d = filter (\<lambda>r. owner_of r = Some t2) (table_of e d) \<and>
     (\<forall>r \<in> set (select_from e s d). owner_of r = Some t2) \<and>
     (\<forall>s1 r d'. owner_of r \<noteq> Some t2 \<and> exec s1 d (Insert r) = Inr d' \<longrightarrow>
        select_from e s d' = select_from e s d \<and> r \<notin> set (select_from e s d')) \<and>
     (\<forall>s1 new g d'. users_id new \<noteq> t2 \<and> exec s1 d (CreateUser new g) = Inr d' \<longrightarrow>
        select_from e s d' = select_from e s d)"
proof (intro conjI allI impI ballI)
  assume a: "auth_uid s = Some t2"
  show "select_from e s d = filter (\<lambda>r. owner_of r = Some t2) (table_of e d)"
    using a by (rule select_from_eq)
  show "owner_of r = Some t2" if "r \<in> set (select_from e s d)" for r
    using that a by (simp add: select_from_eq)
  show "select_from e s d' = select_from e s d"
    if "owner_of r \<noteq> Some t2 \<and> exec s1 d (Insert r) = Inr d'" for s1 r d'
    using that a exec_Insert_table [of s1 d r d' e] by (simp add: select_from_eq)
  show "r \<notin> set (select_from e s d')"
    if "owner_of r \<noteq> Some t2 \<and> exec s1 d (Insert r) = Inr d'" for s1 r d'
    using that a by (simp add: select_from_eq)
  show "select_from e s d' = select_from e s d"
    if "users_id new \<noteq> t2 \<and> exec s1 d (CreateUser new g) = Inr d'" for s1 new g d'
    using that a exec_CreateUser_table [of s1 d new g d' e]
    by (simp add: select_from_eq new_profile_def)
qed

theorem tenant_read_isolation_witness:
  "auth_uid (example_session 2 0) = Some 2 \<and>
   owner_of (ARow (example_application 10 1 (Some ''applied''))) = Some 1 \<and>
   exec (example_session 1 0) example_db (Insert (ARow (example_application 10 1 (Some ''applied''))))
     = Inr (example_db\<lparr>applications := [example_application 10 1 (Some ''applied'')]\<rparr>) \<and>
   select_from Applications (example_session 2 0)
     (example_db\<lparr>applications := [example_application 10 1 (Some ''applied'')]\<rparr>) = [] \<and>
   select_from Applications (example_session 1 0)
     (example_db\<lparr>applications := [example_application 10 1 (Some ''applied'')]\<rparr>)
     = [ARow (example_application 10 1 (Some ''applied''))]"
proof -
  have a: "auth_uid (example_session 2 0) = Some 2"
    by (simp add: example_session_def)
  have b: "auth_uid (example_session 1 0) = Some 1"
    by (simp add: example_session_def)
  have o: "owner_of (ARow (example_application 10 1 (Some ''applied''))) = Some 1"
    by (simp add: example_application_def)
  have x: "exec (example_session 1 0) example_db (Insert (ARow (example_application 10 1 (Some ''applied''))))
     = Inr (example_db\<lparr>applications := [example_application 10 1 (Some ''applied'')]\<rparr>)"
    by (simp add: example_defs eval_defs)
  have t: "table_of Applications (example_db\<lparr>applications := [example_application 10 1 (Some ''applied'')]\<rparr>)
     = [ARow (example_application 10 1 (Some ''applied''))]"
    by simp
  show ?thesis
    using a o x t
      tenant_read_isolation [OF a, of Applications
        "example_db\<lparr>applications := [example_application 10 1 (Some ''applied'')]\<rparr>"]
      tenant_read_isolation [OF b, of Applications
        "example_db\<lparr>applications := [example_application 10 1 (Some ''applied'')]\<rparr>"]
    by simp
qed

section \<open>Cascade on tenant deletion\<close>

text \<open>
  C7. Deleting tenant \<open>t\<close> leaves, in each of the six tables, exactly the rows whose
  owner column is not \<open>t\<close>, in their order: every row that references the tenant is
  deleted and every row of any other tenant is unchanged.
\<close>

theorem cascade_delete:
  "table_of e (delete_auth_users d t) = filter (\<lambda>r. owner_of r \<noteq> Some t) (table_of e d) \<and>
   users (delete_auth_users d t) = filter (\<lambda>u. users_id u \<noteq> t) (users d)"
  by (cases e) (simp_all add: delete_auth_users_def cascade_def filter_map comp_def)

theorem cascade_delete_witness:
  "table_of Applications (delete_auth_users
     (example_db\<lparr>applications := [example_application 10 1 None, example_application 11 2 None]\<rparr>) 1)
   = [ARow (example_application 11 2 None)] \<and>
   users (delete_auth_users
     (example_db\<lparr>applications := [example_application 10 1 None, example_application 11 2 None]\<rparr>) 1)
   = [example_user 2]"
  using cascade_delete [of Applications
    "example_db\<lparr>applications := [example_application 10 1 None, example_application 11 2 None]\<rparr>" 1]
  by (simp add: example_defs)

section \<open>Column constraints\<close>

lemma constraints_wellness_logs_None:
  "constraints_wellness_logs r = None \<longleftrightarrow>
     (mood r = None \<or> mood r \<in> Some ` set [''great'', ''good'', ''neutral'', ''low'', ''struggling'']) \<and>
     (energy_level r = None \<or> energy_level r \<in> Some ` {1..10}) \<and>
     (stress_level r = None \<or> stress_level r \<in> Some ` {1..10})"
  by (cases "mood r"; cases "energy_level r"; cases "stress_level r")
     (auto simp: constraints_wellness_logs_def sql_defs)


lemma constraints_wellness_logs_cases:
  "constraints_wellness_logs r = None \<or> constraints_wellness_logs r = Some CheckViolation"
  by (simp add: constraints_wellness_logs_def)



lemma coerce_wellness_logs_cases:
  "coerce_wellness_logs r = None \<or> coerce_wellness_logs r = Some NumericValueOutOfRange"
  by (simp add: coerce_wellness_logs_def)

text \<open>
  C6. An insert of a wellness log whose energy_level or stress_level is a value outside
  1..10, or whose mood is a value outside great, good, neutral, low, struggling, violates
  a CHECK constraint of the table. The statement fails in every session and every
  database, and the database is left as it was. The error is the check violation
  whenever the values fit the column types and the row passes the insert policy (the
  caller inserts a row of its own); a value that its column type cannot hold is
  refused as out of range before that, and a row of another owner by the policy.
\<close>

theorem wellness_out_of_range_rejected:
  "(\<exists>m. mood r = Some m \<and> m \<notin> set [''great'', ''good'', ''neutral'', ''low'', ''struggling'']) \<or>
   (\<exists>n. energy_level r = Some n \<and> (n < 1 \<or> 10 < n)) \<or>
   (\<exists>n. stress_level r = Some n \<and> (n < 1 \<or> 10 < n)) \<Longrightarrow>
     constraints_wellness_logs r = Some CheckViolation \<and>
     run s d (Insert (WRow r)) =
       (Some (if coerce_wellness_logs r \<noteq> None then NumericValueOutOfRange
              else if is_true (own_row s r) then CheckViolation
              else InsufficientPrivilege), d)"
proof -
  assume bad: "(\<exists>m. mood r = Some m \<and> m \<notin> set [''great'', ''good'', ''neutral'', ''low'', ''struggling'']) \<or>
   (\<exists>n. energy_level r = Some n \<and> (n < 1 \<or> 10 < n)) \<or>
   (\<exists>n. stress_level r = Some n \<and> (n < 1 \<or> 10 < n))"
  then have "constraints_wellness_logs r \<noteq> None"
    unfolding constraints_wellness_logs_None by auto
  then have c: "constraints_wellness_logs r = Some CheckViolation"
    using constraints_wellness_logs_cases [of r] by auto
  from coerce_wellness_logs_cases [of r] have
    "run s d (Insert (WRow r)) =
       (Some (if coerce_wellness_logs r \<noteq> None then NumericValueOutOfRange
              else if is_true (own_row s r) then CheckViolation
              else InsufficientPrivilege), d)"
    using c
    by (auto simp: run_def insert_wellness_logs_def insert_row_def tuple_errors_def policy_permits_def)
  with c show ?thesis by simp
qed

theorem wellness_out_of_range_rejected_witness:
  "run (example_session 1 0) example_db (Insert (WRow (example_wellness 20 1 (Some ''good'') (Some 11) None)))
     = (Some CheckViolation, example_db) \<and>
   run (example_session 1 0) example_db (Insert (WRow (example_wellness 20 1 (Some ''ecstatic'') None None)))
     = (Some CheckViolation, example_db) \<and>
   run (example_session 2 0) example_db (Insert (WRow (example_wellness 20 1 None None (Some 0))))
     = (Some InsufficientPrivilege, example_db) \<and>
   run (example_session 1 0) example_db
       (Insert (WRow (example_wellness 20 1 None (Some 2147483648) None)))
     = (Some NumericValueOutOfRange, example_db)"
  using wellness_out_of_range_rejected [of "example_wellness 20 1 (Some ''good'') (Some 11) None"
          "example_session 1 0" example_db]
        wellness_out_of_range_rejected [of "example_wellness 20 1 (Some ''ecstatic'') None None"
          "example_session 1 0" example_db]
        wellness_out_of_range_rejected [of "example_wellness 20 1 None None (Some 0)"
          "example_session 2 0" example_db]
        wellness_out_of_range_rejected [of "example_wellness 20 1 None (Some 2147483648) None"
          "example_session 1 0" example_db]
  by (simp add: example_wellness_def example_session_def own_row_def sql_defs coerce_defs)



section \<open>Tenant isolation of writes\<close>

lemma filter_map_replace:
  "\<forall>x \<in> set rows. P x \<longrightarrow> \<not> Q x \<Longrightarrow> \<not> Q new \<Longrightarrow>
     filter Q (map (\<lambda>x. if P x then new else x) rows) = filter Q rows"
  by (induction rows) auto

lemma update_row_others:
  assumes "update_row e s us co chk uniq rows rid new = Inr rows'" and "auth_uid s = Some t"
  shows "filter (\<lambda>x. user_id x \<noteq> Some t) rows' = filter (\<lambda>x. user_id x \<noteq> Some t) rows"
proof (cases "filter (update_target e s rid) rows = []")
  case True
  with assms show ?thesis by (auto simp: update_row_def split: option.splits)
next
  case False
  with assms have p: "policy_permits e UPDATE s new"
    and r: "rows' = map (\<lambda>x. if update_target e s rid x then new else x) rows"
    by (auto simp: update_row_def split: if_splits option.splits)
  have "\<forall>x \<in> set rows. update_target e s rid x \<longrightarrow> \<not> user_id x \<noteq> Some t"
    using assms(2) by (auto simp: update_target_def policy_permits_iff)
  moreover have "\<not> user_id new \<noteq> Some t"
    using p assms(2) by (auto simp: policy_permits_iff)
  ultimately show ?thesis
    unfolding r by (rule filter_map_replace)
qed

lemma delete_row_others:
  assumes "auth_uid s = Some t"
  shows "filter (\<lambda>x. user_id x \<noteq> Some t) (delete_row e s rows rid) = filter (\<lambda>x. user_id x \<noteq> Some t) rows"
  unfolding delete_row_def filter_filter
  by (rule filter_cong) (use assms in \<open>auto simp: delete_target_def policy_permits_iff\<close>)

lemma filter_others_map:
  "(\<And>x. owner_of (C x) = user_id x) \<Longrightarrow>
   filter (\<lambda>x. owner_of x \<noteq> Some t) (map C rows) = map C (filter (\<lambda>x. user_id x \<noteq> Some t) rows)"
  by (simp add: filter_map comp_def)

lemma exec_Update_others:
  assumes "exec s d (Update rid r) = Inr d'" and "auth_uid s = Some t"
  shows "filter (\<lambda>x. owner_of x \<noteq> Some t) (table_of e d') = filter (\<lambda>x. owner_of x \<noteq> Some t) (table_of e d)"
  using assms
  by (cases r; cases e)
     (auto simp: update_defs filter_others_map split: sum.splits dest: update_row_others)

lemma exec_Delete_others:
  assumes "exec s d (Delete e' rid) = Inr d'" and "auth_uid s = Some t"
  shows "filter (\<lambda>x. owner_of x \<noteq> Some t) (table_of e d') = filter (\<lambda>x. owner_of x \<noteq> Some t) (table_of e d)"
  using assms
  by (cases e'; cases e) (auto simp: filter_others_map delete_row_others)

lemma exec_Insert_owner:
  assumes "exec s d (Insert r) = Inr d'"
  shows "auth_uid s = owner_of r \<and> owner_of r \<noteq> None"
  using assms
  by (cases r) (auto simp: insert_defs insert_row_Inr policy_permits_iff split: sum.splits)

lemma insert_row_not_owner:
  "\<not> policy_permits e INSERT s r \<Longrightarrow>
     insert_row e s us co chk uniq rows r =
       Inl (case co r of Some err \<Rightarrow> err | None \<Rightarrow> InsufficientPrivilege)"
  by (simp add: insert_row_def split: option.splits)

lemma coerce_row_cases:
  "coerce_row r = None \<or> coerce_row r = Some NumericValueOutOfRange"
  by (cases r) (simp_all add: coerce_defs)

lemma exec_Insert_not_owner:
  assumes "\<not> (auth_uid s = owner_of r \<and> owner_of r \<noteq> None)"
  shows "exec s d (Insert r) =
    Inl (if coerce_row r \<noteq> None then NumericValueOutOfRange else InsufficientPrivilege)"
proof -
  have e: "exec s d (Insert r) =
      Inl (case coerce_row r of Some err \<Rightarrow> err | None \<Rightarrow> InsufficientPrivilege)"
  proof (cases r)
    case (PRow x)
    with assms have "\<not> policy_permits Profiles INSERT s x" by (auto simp: policy_permits_iff)
    with PRow show ?thesis by (simp add: insert_profiles_def insert_row_not_owner)
  next
    case (ARow x)
    with assms have "\<not> policy_permits Applications INSERT s x" by (auto simp: policy_permits_iff)
    with ARow show ?thesis by (simp add: insert_applications_def insert_row_not_owner)
  next
    case (LRow x)
    with assms have "\<not> policy_permits LearningProgress INSERT s x" by (auto simp: policy_permits_iff)
    with LRow show ?thesis by (simp add: insert_learning_progress_def insert_row_not_owner)
  next
    case (WRow x)
    with assms have "\<not> policy_permits WellnessLogs INSERT s x" by (auto simp: policy_permits_iff)
    with WRow show ?thesis by (simp add: insert_wellness_logs_def insert_row_not_owner)
  next
    case (SRow x)
    with assms have "\<not> policy_permits SavedJobs INSERT s x" by (auto simp: policy_permits_iff)
    with SRow show ?thesis by (simp add: insert_saved_jobs_def insert_row_not_owner)
  next
    case (IRow x)
    with assms have "\<not> policy_permits InterviewSessions INSERT s x" by (auto simp: policy_permits_iff)
    with IRow show ?thesis by (simp add: insert_interview_sessions_def insert_row_not_owner)
  qed
  from coerce_row_cases [of r] show ?thesis
    unfolding e by auto
qed

lemma update_target_eq:
  "auth_uid s = Some t \<Longrightarrow> has_policy e UPDATE \<Longrightarrow> update_target e s rid = row_of t rid"
  by (rule ext) (auto simp: update_target_def policy_permits_iff row_of_def)

lemma update_target_none:
  "\<not> has_policy e UPDATE \<Longrightarrow> update_target e s rid = (\<lambda>x. False)"
  by (rule ext) (simp add: update_target_def policy_permits_def)

lemma delete_target_eq:
  "auth_uid s = Some t \<Longrightarrow> has_policy e DELETE \<Longrightarrow> delete_target e s rid = row_of t rid"
  by (rule ext) (auto simp: delete_target_def policy_permits_iff row_of_def)

lemma delete_target_none:
  "\<not> has_policy e DELETE \<Longrightarrow> delete_target e s rid = (\<lambda>x. False)"
  by (rule ext) (simp add: delete_target_def policy_permits_def)

lemma update_row_effect:
  assumes "auth_uid s = Some t" and "has_policy e UPDATE" and "co new = None"
    and "user_id new = Some t"
    and "length (filter (row_of t rid) rows) = 1"
    and "tuple_errors us chk uniq (filter (\<lambda>x. \<not> row_of t rid x) rows) new = None"
  shows "update_row e s us co chk uniq rows rid new =
    Inr (map (\<lambda>x. if row_of t rid x then new else x) rows)"
proof -
  have p: "policy_permits e UPDATE s new"
    using assms(1,2,4) by (simp add: policy_permits_iff)
  have n: "filter (row_of t rid) rows \<noteq> []"
    using assms(5) by auto
  show ?thesis
    using assms(3,5,6) p n
    by (simp add: update_row_def update_target_eq [OF assms(1,2)] tuple_errors_None)
qed

lemma update_row_changed:
  assumes "update_row e s us co chk uniq rows rid new = Inr rows'" and "rows' \<noteq> rows"
  shows "co new = None \<and> policy_permits e UPDATE s new \<and>
     tuple_errors us chk uniq (filter (\<lambda>x. \<not> update_target e s rid x) rows) new = None \<and>
     length (filter (update_target e s rid) rows) = 1"
proof -
  have n: "filter (update_target e s rid) rows \<noteq> []"
    using assms by (auto simp: update_row_def split: option.splits if_splits)
  have "\<not> 1 < length (filter (update_target e s rid) rows)"
    using assms n by (auto simp: update_row_def split: option.splits if_splits)
  with n have "length (filter (update_target e s rid) rows) = 1"
    by (cases "filter (update_target e s rid) rows") auto
  then show ?thesis
    using assms n
    by (auto simp: update_row_def tuple_errors_None split: option.splits if_splits)
qed

lemma example_db_reachable: "reachable example_db"
proof -
  have 1: "exec (example_session 1 0) empty_db (CreateUser (example_user 1) 101)
      = Inr (empty_db\<lparr>users := [example_user 1],
               profiles := [new_profile (example_session 1 0) (example_user 1) 101]\<rparr>)"
    by (simp add: insert_auth_users_def handle_new_user_def tuple_errors_def key_defs sql_defs
          constraints_profiles_def new_profile_def example_user_def empty_db_def)
  have 2: "exec (example_session 2 0) (empty_db\<lparr>users := [example_user 1],
               profiles := [new_profile (example_session 1 0) (example_user 1) 101]\<rparr>)
             (CreateUser (example_user 2) 102) = Inr example_db"
    by (simp add: insert_auth_users_def handle_new_user_def tuple_errors_def key_defs sql_defs
          constraints_profiles_def new_profile_def example_user_def empty_db_def example_db_def)
  show ?thesis
    using reachable_exec [OF reachable_exec [OF reachable_empty 1] 2] .
qed

lemma insert_row_ex:
  "(\<exists>rows'. insert_row e s us co chk uniq rows r = Inr rows') \<longleftrightarrow>
     co r = None \<and> policy_permits e INSERT s r \<and> tuple_errors us chk uniq rows r = None"
  by (auto simp: insert_row_def split: option.splits)

lemma case_sum_Inr_ex:
  "(\<exists>d'. (case x of Inl err \<Rightarrow> Inl err | Inr rows \<Rightarrow> Inr (f rows)) = Inr d') \<longleftrightarrow> (\<exists>rows. x = Inr rows)"
  by (cases x) auto

lemma exec_Insert_iff:
  assumes "auth_uid s = Some t"
  shows "(\<exists>d'. exec s d (Insert r) = Inr d') \<longleftrightarrow>
    owner_of r = Some t \<and> meets_constraints d (\<lambda>x. True) r"
  using assms
  by (cases r)
     (auto simp: insert_defs case_sum_Inr_ex insert_row_ex policy_permits_iff)

lemma any_row_of_simps [simp]:
  "any_row_of t rid (PRow p) = row_of t rid p"
  "any_row_of t rid (ARow a) = row_of t rid a"
  "any_row_of t rid (LRow l) = row_of t rid l"
  "any_row_of t rid (WRow w) = row_of t rid w"
  "any_row_of t rid (SRow j) = row_of t rid j"
  "any_row_of t rid (IRow i) = row_of t rid i"
  by (simp_all add: any_row_of_def row_of_def)

lemma map_replace_any:
  assumes "\<And>x. any_row_of t rid (C x) = row_of t rid x"
  shows "map C (map (\<lambda>x. if row_of t rid x then new else x) rows)
     = map (\<lambda>x. if any_row_of t rid x then C new else x) (map C rows)"
  by (induction rows) (simp_all add: assms)

lemma update_any:
  assumes a: "auth_uid s = Some t" and p: "has_policy e UPDATE" and o: "user_id r = Some t"
    and c: "co r = None"
    and l: "length (filter (any_row_of t rid) (map C rows)) = 1"
    and m: "tuple_errors us chk uniq (filter (\<lambda>x. \<not> any_row_of t rid (C x)) rows) r = None"
    and C: "\<And>x. any_row_of t rid (C x) = row_of t rid x"
  shows "update_row e s us co chk uniq rows rid r =
    Inr (map (\<lambda>x. if row_of t rid x then r else x) rows)"
proof -
  have "filter (any_row_of t rid) (map C rows) = map C (filter (row_of t rid) rows)"
    by (simp add: filter_map comp_def C)
  with l have l': "length (filter (row_of t rid) rows) = 1" by simp
  have m': "tuple_errors us chk uniq (filter (\<lambda>x. \<not> row_of t rid x) rows) r = None"
    using m by (simp add: C)
  show ?thesis
    using a p c o l' m' by (rule update_row_effect)
qed

lemma exec_Update_effect:
  assumes a: "auth_uid s = Some t" and p: "has_policy (entity_of new) UPDATE"
    and o: "owner_of new = Some t"
    and l: "length (filter (any_row_of t rid) (table_of (entity_of new) d)) = 1"
    and m: "meets_constraints d (\<lambda>x. \<not> any_row_of t rid x) new"
  shows "\<exists>d'. exec s d (Update rid new) = Inr d' \<and>
    (\<forall>e. table_of e d' =
      (if e = entity_of new
       then map (\<lambda>x. if any_row_of t rid x then new else x) (table_of e d)
       else table_of e d))"
proof (cases new)
  case (PRow r)
  have "update_row Profiles s (users d) coerce_profiles constraints_profiles unique_profiles
      (profiles d) rid r = Inr (map (\<lambda>x. if row_of t rid x then r else x) (profiles d))"
    using a p o l m unfolding PRow by (intro update_any [where C = PRow]) simp_all
  then have "exec s d (Update rid new) =
      Inr (d\<lparr>profiles := map (\<lambda>x. if row_of t rid x then r else x) (profiles d)\<rparr>)"
    by (simp add: PRow update_profiles_def)
  moreover have "table_of e (d\<lparr>profiles := map (\<lambda>x. if row_of t rid x then r else x) (profiles d)\<rparr>) =
      (if e = entity_of new
       then map (\<lambda>x. if any_row_of t rid x then new else x) (table_of e d)
       else table_of e d)" for e
    unfolding PRow by (cases e) (simp_all add: map_replace_any [where C = PRow])
  ultimately show ?thesis by blast
next
  case (ARow r)
  have "update_row Applications s (users d) coerce_applications constraints_applications no_unique
      (applications d) rid r = Inr (map (\<lambda>x. if row_of t rid x then r else x) (applications d))"
    using a p o l m unfolding ARow by (intro update_any [where C = ARow]) simp_all
  then have "exec s d (Update rid new) =
      Inr (d\<lparr>applications := map (\<lambda>x. if row_of t rid x then r else x) (applications d)\<rparr>)"
    by (simp add: ARow update_applications_def)
  moreover have "table_of e (d\<lparr>applications := map (\<lambda>x. if row_of t rid x then r else x) (applications d)\<rparr>) =
      (if e = entity_of new
       then map (\<lambda>x. if any_row_of t rid x then new else x) (table_of e d)
       else table_of e d)" for e
    unfolding ARow by (cases e) (simp_all add: map_replace_any [where C = ARow])
  ultimately show ?thesis by blast
next
  case (LRow r)
  have "update_row LearningProgress s (users d) coerce_learning_progress
      constraints_learning_progress unique_learning_progress (learning_progress d) rid r
    = Inr (map (\<lambda>x. if row_of t rid x then r else x) (learning_progress d))"
    using a p o l m unfolding LRow by (intro update_any [where C = LRow]) simp_all
  then have "exec s d (Update rid new) =
      Inr (d\<lparr>learning_progress := map (\<lambda>x. if row_of t rid x then r else x) (learning_progress d)\<rparr>)"
    by (simp add: LRow update_learning_progress_def)
  moreover have "table_of e (d\<lparr>learning_progress := map (\<lambda>x. if row_of t rid x then r else x) (learning_progress d)\<rparr>) =
      (if e = entity_of new
       then map (\<lambda>x. if any_row_of t rid x then new else x) (table_of e d)
       else table_of e d)" for e
    unfolding LRow by (cases e) (simp_all add: map_replace_any [where C = LRow])
  ultimately show ?thesis by blast
next
  case (WRow r)
  with p show ?thesis by simp
next
  case (SRow r)
  with p show ?thesis by simp
next
  case (IRow r)
  with p show ?thesis by simp
qed

lemma update_changed_any:
  assumes a: "auth_uid s = Some t"
    and u: "update_row e s us co chk uniq rows rid r = Inr rows'" and n: "rows' \<noteq> rows"
    and C: "\<And>x. any_row_of t rid (C x) = row_of t rid x"
  shows "has_policy e UPDATE \<and> user_id r = Some t \<and> co r = None \<and>
    tuple_errors us chk uniq (filter (\<lambda>x. \<not> row_of t rid x) rows) r = None \<and>
    length (filter (any_row_of t rid) (map C rows)) = 1"
proof -
  have f: "filter (any_row_of t rid) (map C rows) = map C (filter (row_of t rid) rows)"
    by (simp add: filter_map comp_def C)
  note c = update_row_changed [OF u n]
  from c have p: "has_policy e UPDATE" and o: "user_id r = Some t"
    using a by (auto simp: policy_permits_iff)
  from c show ?thesis
    using p o unfolding update_target_eq [OF a p] f by simp
qed

lemma update_X_changed:
  assumes "(case u of Inl err \<Rightarrow> Inl err | Inr rows \<Rightarrow> Inr (f rows)) = Inr d'" and "d' \<noteq> f rows0"
  obtains rows' where "u = Inr rows'" "rows' \<noteq> rows0"
  using assms by (cases u) auto

lemma exec_Update_changed:
  assumes a: "auth_uid s = Some t" and x: "exec s d (Update rid new) = Inr d'" and n: "d' \<noteq> d"
  shows "has_policy (entity_of new) UPDATE \<and> owner_of new = Some t \<and>
    meets_constraints d (\<lambda>x. \<not> any_row_of t rid x) new \<and>
    length (filter (any_row_of t rid) (table_of (entity_of new) d)) = 1"
proof (cases new)
  case (PRow r)
  have "d' \<noteq> d\<lparr>profiles := profiles d\<rparr>" using n by simp
  with x obtain rows' where "update_row Profiles s (users d) coerce_profiles
      constraints_profiles unique_profiles (profiles d) rid r = Inr rows'" "rows' \<noteq> profiles d"
    unfolding PRow exec.simps update_profiles_def by (rule update_X_changed)
  from update_changed_any [OF a this, where C = PRow] show ?thesis
    unfolding PRow by simp
next
  case (ARow r)
  have "d' \<noteq> d\<lparr>applications := applications d\<rparr>" using n by simp
  with x obtain rows' where "update_row Applications s (users d) coerce_applications
      constraints_applications no_unique (applications d) rid r = Inr rows'" "rows' \<noteq> applications d"
    unfolding ARow exec.simps update_applications_def by (rule update_X_changed)
  from update_changed_any [OF a this, where C = ARow] show ?thesis
    unfolding ARow by simp
next
  case (LRow r)
  have "d' \<noteq> d\<lparr>learning_progress := learning_progress d\<rparr>" using n by simp
  with x obtain rows' where "update_row LearningProgress s (users d) coerce_learning_progress
      constraints_learning_progress unique_learning_progress (learning_progress d) rid r = Inr rows'"
      "rows' \<noteq> learning_progress d"
    unfolding LRow exec.simps update_learning_progress_def by (rule update_X_changed)
  from update_changed_any [OF a this, where C = LRow] show ?thesis
    unfolding LRow by simp
next
  case (WRow r)
  have "d' \<noteq> d\<lparr>wellness_logs := wellness_logs d\<rparr>" using n by simp
  with x obtain rows' where "update_row WellnessLogs s (users d) coerce_wellness_logs
      constraints_wellness_logs no_unique (wellness_logs d) rid r = Inr rows'" "rows' \<noteq> wellness_logs d"
    unfolding WRow exec.simps update_wellness_logs_def by (rule update_X_changed)
  from update_changed_any [OF a this, where C = WRow] show ?thesis
    by simp
next
  case (SRow r)
  have "d' \<noteq> d\<lparr>saved_jobs := saved_jobs d\<rparr>" using n by simp
  with x obtain rows' where "update_row SavedJobs s (users d) coerce_saved_jobs
      constraints_saved_jobs no_unique (saved_jobs d) rid r = Inr rows'" "rows' \<noteq> saved_jobs d"
    unfolding SRow exec.simps update_saved_jobs_def by (rule update_X_changed)
  from update_changed_any [OF a this, where C = SRow] show ?thesis
    by simp
next
  case (IRow r)
  have "d' \<noteq> d\<lparr>interview_sessions := interview_sessions d\<rparr>" using n by simp
  with x obtain rows' where "update_row InterviewSessions s (users d) coerce_interview_sessions
      constraints_interview_sessions no_unique (interview_sessions d) rid r = Inr rows'"
      "rows' \<noteq> interview_sessions d"
    unfolding IRow exec.simps update_interview_sessions_def by (rule update_X_changed)
  from update_changed_any [OF a this, where C = IRow] show ?thesis
    by simp
qed

lemma filter_not_any:
  assumes "\<And>x. any_row_of t rid (C x) = row_of t rid x"
  shows "filter (\<lambda>x. \<not> any_row_of t rid x) (map C rows)
     = map C (filter (\<lambda>x. \<not> row_of t rid x) rows)"
  by (simp add: filter_map comp_def assms)

lemma table_of_delete_from:
  assumes "auth_uid s = Some t"
  shows "table_of e (delete_from e' s d rid) =
    (if e = e' \<and> has_policy e' DELETE
     then filter (\<lambda>x. \<not> any_row_of t rid x) (table_of e d)
     else table_of e d)"
  by (cases e'; cases e)
     (simp_all add: delete_row_def delete_target_none delete_target_eq [OF assms] filter_not_any)

text \<open>
  That a write is accepted if and only if the row's owner is the caller fails from right
  to left: tenant 1 inserting an application of its own with a status outside the
  enumerated set is rejected by the CHECK constraint, and tenant 1 updating or deleting a
  wellness log of its own changes nothing, since wellness_logs has no policy for UPDATE
  or DELETE.
\<close>

theorem write_accepted_iff_owner_counterexample:
  "auth_uid (example_session 1 0) = Some 1 \<and>
   owner_of (ARow (example_application 10 1 (Some ''pending''))) = Some 1 \<and>
   exec (example_session 1 0) example_db (Insert (ARow (example_application 10 1 (Some ''pending''))))
     = Inl CheckViolation \<and>
   owner_of (WRow (example_wellness 20 1 None None None)) = Some 1 \<and>
   exec (example_session 1 0) example_db (Insert (WRow (example_wellness 20 1 None None None)))
     = Inr (example_db\<lparr>wellness_logs := [example_wellness 20 1 None None None]\<rparr>) \<and>
   exec (example_session 1 0) (example_db\<lparr>wellness_logs := [example_wellness 20 1 None None None]\<rparr>)
       (Update 20 (WRow (example_wellness 20 1 (Some ''good'') None None)))
     = Inr (example_db\<lparr>wellness_logs := [example_wellness 20 1 None None None]\<rparr>) \<and>
   exec (example_session 1 0) (example_db\<lparr>wellness_logs := [example_wellness 20 1 None None None]\<rparr>)
       (Delete WellnessLogs 20)
     = Inr (example_db\<lparr>wellness_logs := [example_wellness 20 1 None None None]\<rparr>)"
  by (simp add: example_defs eval_defs update_defs update_row_def update_target_def
        delete_row_def delete_target_def new_profile_def)

text \<open>
  C8 (amended). In a session of tenant \<open>t1\<close>, for every entity, a write is accepted if
  and only if the row's owner is \<open>t1\<close>, the row meets the constraints of its table, and
  the table has a policy for the command. An insert is accepted exactly when the row is
  owned by \<open>t1\<close> and meets the constraints, and it then appends the row; an insert of a
  row with another owner is rejected and leaves the database as it was. An update of a
  row of \<open>t1\<close> to a row of \<open>t1\<close> that meets the constraints, on a table with an UPDATE
  policy, replaces the row, and an update changes the database only in that case. A
  delete removes the rows of \<open>t1\<close> with the given id on the table with a DELETE policy,
  and nothing else. So no statement of the session adds, changes or removes a row whose
  owner is not \<open>t1\<close>, in any of the six tables.
\<close>

theorem writes_accepted_for_owner:
  "auth_uid s = Some t1 \<Longrightarrow>
     ((\<exists>d'. exec s d (Insert r) = Inr d') \<longleftrightarrow>
        owner_of r = Some t1 \<and> meets_constraints d (\<lambda>x. True) r) \<and>
     (\<forall>d'. exec s d (Insert r) = Inr d' \<longrightarrow>
        table_of e d' = (if e = entity_of r then table_of e d @ [r] else table_of e d)) \<and>
     (owner_of r \<noteq> Some t1 \<longrightarrow>
        run s d (Insert r) =
          (Some (if coerce_row r \<noteq> None then NumericValueOutOfRange else InsufficientPrivilege), d)) \<and>
     (has_policy (entity_of r) UPDATE \<and> owner_of r = Some t1 \<and>
      length (filter (any_row_of t1 rid) (table_of (entity_of r) d)) = 1 \<and>
      meets_constraints d (\<lambda>x. \<not> any_row_of t1 rid x) r \<longrightarrow>
        (\<exists>d'. exec s d (Update rid r) = Inr d' \<and>
           table_of (entity_of r) d' =
             map (\<lambda>x. if any_row_of t1 rid x then r else x)
               (table_of (entity_of r) d))) \<and>
     (\<forall>d'. exec s d (Update rid r) = Inr d' \<and> d' \<noteq> d \<longrightarrow>
        has_policy (entity_of r) UPDATE \<and> owner_of r = Some t1 \<and>
        meets_constraints d (\<lambda>x. \<not> any_row_of t1 rid x) r \<and>
        length (filter (any_row_of t1 rid) (table_of (entity_of r) d)) = 1) \<and>
     (\<exists>d'. exec s d (Delete e' rid) = Inr d' \<and>
        table_of e d' =
          (if e = e' \<and> has_policy e' DELETE
           then filter (\<lambda>x. \<not> any_row_of t1 rid x) (table_of e d)
           else table_of e d)) \<and>
     (\<forall>st d'. tenant_stmt st \<and> exec s d st = Inr d' \<longrightarrow>
        filter (\<lambda>x. owner_of x \<noteq> Some t1) (table_of e d')
          = filter (\<lambda>x. owner_of x \<noteq> Some t1) (table_of e d))"
proof -
  assume a: "auth_uid s = Some t1"
  have c1: "(\<exists>d'. exec s d (Insert r) = Inr d') \<longleftrightarrow>
        owner_of r = Some t1 \<and> meets_constraints d (\<lambda>x. True) r"
    using a by (rule exec_Insert_iff)
  have c2: "\<forall>d'. exec s d (Insert r) = Inr d' \<longrightarrow>
        table_of e d' = (if e = entity_of r then table_of e d @ [r] else table_of e d)"
    using exec_Insert_table [of s d r _ e] by blast
  have c3: "owner_of r \<noteq> Some t1 \<longrightarrow>
        run s d (Insert r) =
          (Some (if coerce_row r \<noteq> None then NumericValueOutOfRange else InsufficientPrivilege), d)"
    using a exec_Insert_not_owner [of s r d] by (auto simp: run_def)
  have c4: "has_policy (entity_of r) UPDATE \<and> owner_of r = Some t1 \<and>
      length (filter (any_row_of t1 rid) (table_of (entity_of r) d)) = 1 \<and>
      meets_constraints d (\<lambda>x. \<not> any_row_of t1 rid x) r \<longrightarrow>
        (\<exists>d'. exec s d (Update rid r) = Inr d' \<and>
           table_of (entity_of r) d' =
             map (\<lambda>x. if any_row_of t1 rid x then r else x)
               (table_of (entity_of r) d))"
  proof
    assume h: "has_policy (entity_of r) UPDATE \<and> owner_of r = Some t1 \<and>
      length (filter (any_row_of t1 rid) (table_of (entity_of r) d)) = 1 \<and>
      meets_constraints d (\<lambda>x. \<not> any_row_of t1 rid x) r"
    from h exec_Update_effect [OF a, of r rid d] obtain d' where
      x: "exec s d (Update rid r) = Inr d'" and
      t: "\<forall>e. table_of e d' =
        (if e = entity_of r
         then map (\<lambda>x. if any_row_of t1 rid x then r else x) (table_of e d)
         else table_of e d)"
      by blast
    from t have "table_of (entity_of r) d' =
        map (\<lambda>x. if any_row_of t1 rid x then r else x) (table_of (entity_of r) d)"
      by simp
    with x show "\<exists>d'. exec s d (Update rid r) = Inr d' \<and>
           table_of (entity_of r) d' =
             map (\<lambda>x. if any_row_of t1 rid x then r else x)
               (table_of (entity_of r) d)"
      by blast
  qed
  have c5: "\<forall>d'. exec s d (Update rid r) = Inr d' \<and> d' \<noteq> d \<longrightarrow>
        has_policy (entity_of r) UPDATE \<and> owner_of r = Some t1 \<and>
        meets_constraints d (\<lambda>x. \<not> any_row_of t1 rid x) r \<and>
        length (filter (any_row_of t1 rid) (table_of (entity_of r) d)) = 1"
    using exec_Update_changed [OF a, of d rid r] by blast
  have c6: "\<exists>d'. exec s d (Delete e' rid) = Inr d' \<and>
        table_of e d' =
          (if e = e' \<and> has_policy e' DELETE
           then filter (\<lambda>x. \<not> any_row_of t1 rid x) (table_of e d)
           else table_of e d)"
    using table_of_delete_from [OF a, of e e' d rid] by simp
  have c7: "\<forall>st d'. tenant_stmt st \<and> exec s d st = Inr d' \<longrightarrow>
        filter (\<lambda>x. owner_of x \<noteq> Some t1) (table_of e d')
          = filter (\<lambda>x. owner_of x \<noteq> Some t1) (table_of e d)"
  proof (intro allI impI)
    fix st d'
    assume h: "tenant_stmt st \<and> exec s d st = Inr d'"
    show "filter (\<lambda>x. owner_of x \<noteq> Some t1) (table_of e d')
          = filter (\<lambda>x. owner_of x \<noteq> Some t1) (table_of e d)"
    proof (cases st)
      case (Insert r')
      with h have x: "exec s d (Insert r') = Inr d'" by simp
      with a have "owner_of r' = Some t1"
        using exec_Insert_owner [OF x] by simp
      then show ?thesis
        using exec_Insert_table [OF x, of e] by simp
    next
      case (Update rid' r')
      with h a show ?thesis by (simp add: exec_Update_others)
    next
      case (Delete e'' rid')
      with h a show ?thesis using exec_Delete_others [of s d e'' rid' d' t1 e] by simp
    next
      case (CreateUser new g)
      with h show ?thesis by simp
    next
      case (DeleteUser t)
      with h show ?thesis by simp
    qed
  qed
  show ?thesis
    by (intro conjI c1 c2 c3 c4 c5 c6 c7)
qed

theorem writes_accepted_for_owner_witness:
  "auth_uid (example_session 1 0) = Some 1 \<and>
   (\<exists>d'. exec (example_session 1 0) example_writes_db
       (Insert (ARow (example_application 11 1 (Some ''viewed'')))) = Inr d' \<and>
     table_of Applications d' = table_of Applications example_writes_db
       @ [ARow (example_application 11 1 (Some ''viewed''))]) \<and>
   run (example_session 1 0) example_writes_db
       (Insert (ARow (example_application 11 2 (Some ''viewed''))))
     = (Some InsufficientPrivilege, example_writes_db) \<and>
   (\<exists>d'. exec (example_session 1 0) example_writes_db
       (Update 10 (ARow (example_application 10 1 (Some ''offer'')))) = Inr d' \<and>
     table_of Applications d' =
       [ARow (example_application 10 1 (Some ''offer'')),
        ARow (example_application 14 2 (Some ''rejected''))]) \<and>
   (\<exists>d'. exec (example_session 1 0) example_writes_db (Delete SavedJobs 50) = Inr d' \<and>
     table_of SavedJobs d' = [SRow (example_saved_job 51 2)]) \<and>
   (\<exists>d'. exec (example_session 1 0) example_writes_db (Delete SavedJobs 51) = Inr d' \<and>
     table_of SavedJobs d' = table_of SavedJobs example_writes_db)"
proof -
  let ?s = "example_session 1 0"
  have a: "auth_uid ?s = Some 1"
    by (simp add: example_session_def)
  note w = writes_accepted_for_owner [OF a, where d = example_writes_db]
  have "\<exists>d'. exec ?s example_writes_db
       (Insert (ARow (example_application 11 1 (Some ''viewed'')))) = Inr d' \<and>
     table_of Applications d' = table_of Applications example_writes_db
       @ [ARow (example_application 11 1 (Some ''viewed''))]"
    using w [where r = "ARow (example_application 11 1 (Some ''viewed''))" and e = Applications]
    by (simp add: example_defs example_writes_db_def eval_defs new_profile_def)
  moreover have "run ?s example_writes_db
       (Insert (ARow (example_application 11 2 (Some ''viewed''))))
     = (Some InsufficientPrivilege, example_writes_db)"
    using w [where r = "ARow (example_application 11 2 (Some ''viewed''))"]
    by (simp add: example_application_def coerce_defs)
  moreover have "\<exists>d'. exec ?s example_writes_db
       (Update 10 (ARow (example_application 10 1 (Some ''offer'')))) = Inr d' \<and>
     table_of Applications d' =
       [ARow (example_application 10 1 (Some ''offer'')),
        ARow (example_application 14 2 (Some ''rejected''))]"
    using w [where r = "ARow (example_application 10 1 (Some ''offer''))" and rid = 10]
    by (simp add: example_defs example_writes_db_def eval_defs new_profile_def row_of_def)
  moreover have "\<exists>d'. exec ?s example_writes_db (Delete SavedJobs 50) = Inr d' \<and>
     table_of SavedJobs d' = [SRow (example_saved_job 51 2)]"
    using w [where e = SavedJobs and e' = SavedJobs and rid = 50]
    by (simp add: example_defs example_writes_db_def row_of_def)
  moreover have "\<exists>d'. exec ?s example_writes_db (Delete SavedJobs 51) = Inr d' \<and>
     table_of SavedJobs d' = table_of SavedJobs example_writes_db"
    using w [where e = SavedJobs and e' = SavedJobs and rid = 51]
    by (simp add: example_defs example_writes_db_def row_of_def)
  ultimately show ?thesis
    using a by blast
qed

section \<open>Application statistics\<close>

lemma update_row_set:
  "update_row e s us co chk uniq rows rid new = Inr rows' \<Longrightarrow> x \<in> set rows' \<Longrightarrow>
     x \<in> set rows \<or> (x = new \<and> chk new = None)"
  by (drule update_row_Inr) (auto split: if_splits)


lemma exec_applications_valid:
  assumes "exec s d st = Inr d'" and "applications_valid d"
  shows "applications_valid d'"
proof (cases st)
  case (Insert r)
  with assms show ?thesis
    by (cases r)
       (auto simp: applications_valid_def insert_defs insert_row_Inr tuple_errors_None split: sum.splits)
next
  case (Update rid r)
  with assms show ?thesis
    by (cases r)
       (auto simp: applications_valid_def update_defs split: sum.splits dest: update_row_set)
next
  case (Delete e rid)
  with assms show ?thesis
    by (cases e) (auto simp: applications_valid_def delete_row_def)
next
  case (CreateUser new g)
  with assms show ?thesis
    by (auto simp: applications_valid_def insert_auth_users_def handle_new_user_Inr split: if_splits)
next
  case (DeleteUser t)
  with assms show ?thesis
    by (auto simp: applications_valid_def delete_auth_users_def cascade_def)
qed

lemma reachable_applications_valid: "reachable d \<Longrightarrow> applications_valid d"
  by (induction rule: reachable.induct)
     (auto simp: applications_valid_def empty_db_def dest: exec_applications_valid)


lemma int4_Inr: "0 \<le> n \<Longrightarrow> n \<le> INT4_MAX \<Longrightarrow> int4 n = Inr n"
  by (simp add: int4_def INT4_MIN_def)

lemma stats_rows:
  "auth_uid s = Some t \<Longrightarrow>
     filter (\<lambda>r. is_true (sql_eq (user_id r) (Some t))) (rls_select Applications s (applications d))
       = filter (\<lambda>r. user_id r = Some t) (applications d)"
  by (simp add: rls_select_eq) (rule filter_cong, auto simp: sql_defs split: option.splits)

lemma count_status_eq:
  "count_status v (filter (\<lambda>r. user_id r = Some t) (applications d)) = count_applications_with d t (Some v)"
  unfolding count_status_def count_applications_with_def filter_filter
  by (rule arg_cong [where f = "\<lambda>xs. int (length xs)"], rule filter_cong)
     (auto simp: sql_defs split: option.splits)

lemma count_applications_with_le: "count_applications_with d t st \<le> count_applications d t"
proof -
  have "filter (\<lambda>r. user_id r = Some t \<and> status r = st) (applications d)
      = filter (\<lambda>r. status r = st) (filter (\<lambda>r. user_id r = Some t) (applications d))"
    by (simp add: conj_commute)
  moreover have "length (filter (\<lambda>r. status r = st) (filter (\<lambda>r. user_id r = Some t) (applications d)))
      \<le> length (filter (\<lambda>r. user_id r = Some t) (applications d))"
    by (rule length_filter_le)
  ultimately show ?thesis
    unfolding count_applications_with_def count_applications_def by simp
qed

lemma count_applications_with_nonneg: "0 \<le> count_applications_with d t st"
  by (simp add: count_applications_with_def)

lemma constraints_applications_status:
  "constraints_applications r = None \<Longrightarrow>
     status r = None \<or> status r = Some ''applied'' \<or> status r = Some ''viewed'' \<or>
     status r = Some ''interview'' \<or> status r = Some ''offer'' \<or> status r = Some ''rejected''"
  by (cases "status r") (auto simp: constraints_applications_def sql_defs split: if_splits)

lemma status_partition:
  "\<forall>r \<in> set rows. constraints_applications r = None \<Longrightarrow>
     int (length (filter (\<lambda>r. user_id r = Some t) rows)) =
       int (length (filter (\<lambda>r. user_id r = Some t \<and> status r = Some ''applied'') rows)) +
       int (length (filter (\<lambda>r. user_id r = Some t \<and> status r = Some ''interview'') rows)) +
       int (length (filter (\<lambda>r. user_id r = Some t \<and> status r = Some ''offer'') rows)) +
       int (length (filter (\<lambda>r. user_id r = Some t \<and> status r = Some ''rejected'') rows)) +
       int (length (filter (\<lambda>r. user_id r = Some t \<and> status r = Some ''viewed'') rows)) +
       int (length (filter (\<lambda>r. user_id r = Some t \<and> status r = None) rows))"
proof (induction rows)
  case Nil
  then show ?case by simp
next
  case (Cons r rows)
  then have ih: "int (length (filter (\<lambda>r. user_id r = Some t) rows)) =
       int (length (filter (\<lambda>r. user_id r = Some t \<and> status r = Some ''applied'') rows)) +
       int (length (filter (\<lambda>r. user_id r = Some t \<and> status r = Some ''interview'') rows)) +
       int (length (filter (\<lambda>r. user_id r = Some t \<and> status r = Some ''offer'') rows)) +
       int (length (filter (\<lambda>r. user_id r = Some t \<and> status r = Some ''rejected'') rows)) +
       int (length (filter (\<lambda>r. user_id r = Some t \<and> status r = Some ''viewed'') rows)) +
       int (length (filter (\<lambda>r. user_id r = Some t \<and> status r = None) rows))"
    by simp
  from Cons.prems have "constraints_applications r = None" by simp
  from constraints_applications_status [OF this] show ?case
    using ih by (elim disjE) simp_all
qed

lemma exec_example_application:
  assumes "t \<in> set (map users_id (users d))" and "rid \<notin> set (map row_id (applications d))"
    and "st = None \<or> st \<in> Some ` set [''applied'', ''viewed'', ''interview'', ''offer'', ''rejected'']"
  shows "exec (example_session t 0) d (Insert (ARow (example_application rid t st)))
    = Inr (d\<lparr>applications := applications d @ [example_application rid t st]\<rparr>)"
proof -
  have "\<not> key_conflict no_unique (applications d) (example_application rid t st)"
    using assms(2) by (auto simp: key_defs example_application_def)
  moreover have "fk_users (users d) (example_application rid t st)"
    using assms(1) by (simp add: fk_users_def example_application_def)
  moreover have "constraints_applications (example_application rid t st) = None"
    using assms(3) by (auto simp: constraints_applications_def example_application_def sql_defs)
  moreover have "policy_permits Applications INSERT (example_session t 0) (example_application rid t st)"
    by (simp add: policy_permits_iff example_session_def example_application_def)
  ultimately show ?thesis
    by (simp add: insert_applications_def insert_row_def tuple_errors_def coerce_applications_def)
qed



lemma exec_example_application_db:
  assumes "t = 1 \<or> t = 2" and "rid \<notin> set (map row_id xs)"
    and "st = None \<or> st \<in> Some ` set [''applied'', ''viewed'', ''interview'', ''offer'', ''rejected'']"
  shows "exec (example_session t 0) (example_db\<lparr>applications := xs\<rparr>)
           (Insert (ARow (example_application rid t st)))
    = Inr (example_db\<lparr>applications := xs @ [example_application rid t st]\<rparr>)"
  using exec_example_application [of t "example_db\<lparr>applications := xs\<rparr>" rid st] assms
  by (auto simp: example_db_def example_user_def empty_db_def)

lemma row_id_example_application [simp]: "row_id (example_application rid t st) = rid"
  by (simp add: example_application_def)

lemma example_stats_db_reachable: "reachable example_stats_db"
proof -
  have 0: "reachable (example_db\<lparr>applications := []\<rparr>)"
    using example_db_reachable by (simp add: example_db_def empty_db_def)
  have 1: "reachable (example_db\<lparr>applications := [example_application 10 1 (Some ''applied'')]\<rparr>)"
    using reachable_exec [OF 0 exec_example_application_db [of 1 10 "[]" "Some ''applied''"]]
    by simp
  have 2: "reachable (example_db\<lparr>applications := [example_application 10 1 (Some ''applied''),
        example_application 11 1 (Some ''applied'')]\<rparr>)"
    using reachable_exec [OF 1 exec_example_application_db [of 1 11 _ "Some ''applied''"]]
    by simp
  have 3: "reachable (example_db\<lparr>applications := [example_application 10 1 (Some ''applied''),
        example_application 11 1 (Some ''applied''), example_application 12 1 (Some ''interview'')]\<rparr>)"
    using reachable_exec [OF 2 exec_example_application_db [of 1 12 _ "Some ''interview''"]]
    by simp
  have 4: "reachable (example_db\<lparr>applications := [example_application 10 1 (Some ''applied''),
        example_application 11 1 (Some ''applied''), example_application 12 1 (Some ''interview''),
        example_application 13 1 (Some ''offer'')]\<rparr>)"
    using reachable_exec [OF 3 exec_example_application_db [of 1 13 _ "Some ''offer''"]]
    by simp
  have 5: "reachable (example_db\<lparr>applications := [example_application 10 1 (Some ''applied''),
        example_application 11 1 (Some ''applied''), example_application 12 1 (Some ''interview''),
        example_application 13 1 (Some ''offer''), example_application 14 2 (Some ''rejected'')]\<rparr>)"
    using reachable_exec [OF 4 exec_example_application_db [of 2 14 _ "Some ''rejected''"]]
    by simp
  show ?thesis
    using 5 by (simp add: example_stats_db_def)
qed

text \<open>
  That \<open>total\<close> is the sum of the four reported buckets and the viewed rows fails: the
  CHECK on status admits NULL, so tenant 1 can insert an application with no status; it
  counts in \<open>total\<close> and in no bucket, and it is not viewed.
\<close>

theorem application_stats_total_counterexample:
  "exec (example_session 1 0) example_db (Insert (ARow (example_application 10 1 None)))
     = Inr (example_db\<lparr>applications := [example_application 10 1 None]\<rparr>) \<and>
   get_application_stats (example_session 1 0)
       (example_db\<lparr>applications := [example_application 10 1 None]\<rparr>) (Some 1)
     = Inr \<lparr>total = 1, applied = 0, interviews = 0, offers = 0, rejected = 0\<rparr> \<and>
   count_applications_with (example_db\<lparr>applications := [example_application 10 1 None]\<rparr>) 1
       (Some ''viewed'') = 0"
  by (simp add: example_defs eval_defs new_profile_def get_application_stats_def rls_select_def
        count_status_def count_applications_with_def int4_def INT4_MAX_def INT4_MIN_def)

text \<open>
  C2 (amended). In a session of tenant \<open>t\<close>, on every database that statements build,
  with at most 2147483647 applications of the tenant (the counts are cast to INTEGER):
  get_application_stats returns \<open>total\<close> equal to the number of the tenant's application
  rows and each of applied, interview, offer, rejected equal to the number of those rows
  whose status is the bucket's name; and \<open>total\<close> = applied + interview + offer +
  rejected + (rows with status viewed) + (rows with no status).
\<close>

theorem application_stats_counts:
  "auth_uid s = Some t \<Longrightarrow> reachable d \<Longrightarrow> count_applications d t \<le> INT4_MAX \<Longrightarrow>
     get_application_stats s d (Some t) =
       Inr \<lparr>total = count_applications d t,
            applied = count_applications_with d t (Some ''applied''),
            interviews = count_applications_with d t (Some ''interview''),
            offers = count_applications_with d t (Some ''offer''),
            rejected = count_applications_with d t (Some ''rejected'')\<rparr> \<and>
     count_applications d t =
       count_applications_with d t (Some ''applied'') +
       count_applications_with d t (Some ''interview'') +
       count_applications_with d t (Some ''offer'') +
       count_applications_with d t (Some ''rejected'') +
       count_applications_with d t (Some ''viewed'') +
       count_applications_with d t None"
proof
  assume a: "auth_uid s = Some t" and r: "reachable d" and b: "count_applications d t \<le> INT4_MAX"
  have c: "int4 (count_applications_with d t st) = Inr (count_applications_with d t st)" for st
    using count_applications_with_le [of d t st] count_applications_with_nonneg [of d t st] b
    by (intro int4_Inr) simp_all
  have l: "int4 (int (length (filter (\<lambda>r. user_id r = Some t) (applications d))))
      = Inr (count_applications d t)"
    using b int4_Inr [of "count_applications d t"] by (simp add: count_applications_def)
  show "get_application_stats s d (Some t) =
       Inr \<lparr>total = count_applications d t,
            applied = count_applications_with d t (Some ''applied''),
            interviews = count_applications_with d t (Some ''interview''),
            offers = count_applications_with d t (Some ''offer''),
            rejected = count_applications_with d t (Some ''rejected'')\<rparr>"
    by (simp add: get_application_stats_def stats_rows [OF a] count_status_eq c l)
  have "applications_valid d"
    using r by (rule reachable_applications_valid)
  then show "count_applications d t =
       count_applications_with d t (Some ''applied'') +
       count_applications_with d t (Some ''interview'') +
       count_applications_with d t (Some ''offer'') +
       count_applications_with d t (Some ''rejected'') +
       count_applications_with d t (Some ''viewed'') +
       count_applications_with d t None"
    unfolding count_applications_def count_applications_with_def applications_valid_def
    by (rule status_partition)
qed

theorem application_stats_counts_witness:
  "auth_uid (example_session 1 0) = Some 1 \<and> reachable example_stats_db \<and>
   count_applications example_stats_db 1 \<le> INT4_MAX \<and>
   get_application_stats (example_session 1 0) example_stats_db (Some 1)
     = Inr \<lparr>total = 4, applied = 2, interviews = 1, offers = 1, rejected = 0\<rparr>"
proof -
  have a: "auth_uid (example_session 1 0) = Some 1"
    by (simp add: example_session_def)
  have b: "count_applications example_stats_db 1 \<le> INT4_MAX"
    by (simp add: count_applications_def example_stats_db_def example_defs INT4_MAX_def)
  show ?thesis
    using a b example_stats_db_reachable
      application_stats_counts [OF a example_stats_db_reachable b]
    by (simp add: count_applications_def count_applications_with_def example_stats_db_def
          example_application_def)
qed

section \<open>Learning streak\<close>

lemma qualifies_iff:
  "qualifies s p c r \<longleftrightarrow>
     user_id r \<noteq> None \<and> user_id r = p \<and> completed r = Some True \<and>
     map_option (to_date s) (learning_progress_row.updated_at r) = Some c"
  by (cases "user_id r"; cases p; cases "completed r"; cases "learning_progress_row.updated_at r")
     (auto simp: qualifies_def sql_defs)

lemma has_activity_active_day:
  "auth_uid s = Some t \<Longrightarrow> has_activity s d (Some t) c \<longleftrightarrow> active_day s d t c"
  by (auto simp: has_activity_def active_day_def rls_select_eq qualifies_iff)

lemma int4_succ:
  "streak_in_range k c \<Longrightarrow> int4 (k + 1) = Inr (k + 1)"
  by (simp add: streak_in_range_def int4_def INT4_MIN_def)

lemma date_minus_day_eq:
  "date_minus_day c =
     (if DATE_MIN < c \<and> c < TIMESTAMP_END_DATE then Inr (c - 1) else Inl DatetimeFieldOverflow)"
  by (auto simp: date_minus_day_def)

lemma streak_in_range_start: "streak_in_range 0 c"
  by (simp add: streak_in_range_def INT4_MAX_def DATE_MIN_def TIMESTAMP_END_DATE_def)

lemma streak_in_range_step:
  "streak_in_range k c \<Longrightarrow> DATE_MIN < c \<Longrightarrow> c < TIMESTAMP_END_DATE \<Longrightarrow>
     streak_in_range (k + 1) (c - 1)"
  by (simp add: streak_in_range_def)

lemma streak_loop_stop:
  "\<not> has_activity s d p c \<Longrightarrow> streak_loop s d p k c = Inr k"
  by (simp add: streak_loop.simps [of s d p k c])

lemma streak_loop_step:
  "has_activity s d p c \<Longrightarrow> streak_in_range k c \<Longrightarrow> DATE_MIN < c \<Longrightarrow> c < TIMESTAMP_END_DATE \<Longrightarrow>
     streak_loop s d p k c = streak_loop s d p (k + 1) (c - 1)"
  by (simp add: streak_loop.simps [of s d p k c] int4_succ date_minus_day_eq)

lemma streak_loop_floor_step:
  "has_activity s d p c \<Longrightarrow> streak_in_range k c \<Longrightarrow> c \<le> DATE_MIN \<or> TIMESTAMP_END_DATE \<le> c \<Longrightarrow>
     streak_loop s d p k c = Inl DatetimeFieldOverflow"
  by (auto simp: streak_loop.simps [of s d p k c] int4_succ date_minus_day_eq)








lemma streak_loop_run:
  "streak_in_range k c \<Longrightarrow> \<forall>i<n. has_activity s d p (c - int i) \<Longrightarrow>
   \<not> has_activity s d p (c - int n) \<Longrightarrow> DATE_MIN \<le> c - int n \<Longrightarrow> c < TIMESTAMP_END_DATE \<Longrightarrow>
     streak_loop s d p k c = Inr (k + int n)"
proof (induction n arbitrary: k c)
  case 0
  then show ?case by (simp add: streak_loop_stop)
next
  case (Suc n)
  from Suc.prems(2) have h0: "has_activity s d p c" by force
  have l: "DATE_MIN < c" using Suc.prems(4) by simp
  have "\<forall>i<n. has_activity s d p (c - 1 - int i)"
  proof (intro allI impI)
    fix i assume "i < n"
    then have "has_activity s d p (c - int (Suc i))"
      using Suc.prems(2) [rule_format, of "Suc i"] by simp
    then show "has_activity s d p (c - 1 - int i)" by (simp add: diff_diff_eq)
  qed
  moreover have "\<not> has_activity s d p (c - 1 - int n)"
    using Suc.prems(3) by (simp add: algebra_simps)
  moreover have "DATE_MIN \<le> c - 1 - int n" "c - 1 < TIMESTAMP_END_DATE"
    using Suc.prems(4,5) by simp_all
  ultimately have "streak_loop s d p (k + 1) (c - 1) = Inr (k + 1 + int n)"
    using streak_in_range_step [OF Suc.prems(1) l Suc.prems(5)] by (intro Suc.IH)
  then show ?case
    using streak_loop_step [OF h0 Suc.prems(1) l Suc.prems(5)] by simp
qed

lemma streak_loop_floor:
  "streak_in_range k c \<Longrightarrow> \<forall>i. 0 \<le> i \<and> i \<le> c - DATE_MIN \<longrightarrow> has_activity s d p (c - i) \<Longrightarrow>
   DATE_MIN \<le> c \<Longrightarrow> c < TIMESTAMP_END_DATE \<Longrightarrow>
     streak_loop s d p k c = Inl DatetimeFieldOverflow"
proof (induction "nat (c - DATE_MIN)" arbitrary: k c)
  case 0
  then have c: "c = DATE_MIN" by simp
  from "0.prems"(2) [rule_format, of 0] "0.prems"(3) have "has_activity s d p c" by simp
  then show ?case
    using "0.prems"(1) c by (intro streak_loop_floor_step) simp_all
next
  case (Suc m)
  then have l: "DATE_MIN < c" by simp
  from Suc.prems(2) [rule_format, of 0] l have h0: "has_activity s d p c" by simp
  have "\<forall>i. 0 \<le> i \<and> i \<le> c - 1 - DATE_MIN \<longrightarrow> has_activity s d p (c - 1 - i)"
  proof (intro allI impI)
    fix i :: int assume "0 \<le> i \<and> i \<le> c - 1 - DATE_MIN"
    then have "has_activity s d p (c - (i + 1))"
      using Suc.prems(2) [rule_format, of "i + 1"] by simp
    then show "has_activity s d p (c - 1 - i)" by (simp add: algebra_simps)
  qed
  moreover have "m = nat (c - 1 - DATE_MIN)" using Suc.hyps(2) by simp
  moreover have "DATE_MIN \<le> c - 1" "c - 1 < TIMESTAMP_END_DATE"
    using l Suc.prems(4) by simp_all
  ultimately have "streak_loop s d p (k + 1) (c - 1) = Inl DatetimeFieldOverflow"
    using streak_in_range_step [OF Suc.prems(1) l Suc.prems(4)] by (intro Suc.hyps(1))
  then show ?case
    using streak_loop_step [OF h0 Suc.prems(1) l Suc.prems(4)] by simp
qed

lemma example_streak_date: "to_date (example_session t ts) (example_noon day) = day"
  by (simp add: to_date_def example_session_def example_noon_def usecs_per_day_def)

lemma example_streak_today: "CURRENT_DATE (example_session t (example_noon day)) = day"
  using example_streak_date [of t "example_noon day" day]
  by (simp add: CURRENT_DATE_def example_session_def)

lemma example_streak_active:
  "active_day (example_session 1 ts) example_streak_db 1 day
     \<longleftrightarrow> day \<in> {5, 7, 8, 9, 10}"
  by (auto simp: active_day_def example_streak_db_def example_progress_def example_streak_date)

lemma example_history_active:
  "active_day (example_session 1 ts) (example_db\<lparr>learning_progress := example_history n today\<rparr>) 1 day
     \<longleftrightarrow> today - int n < day \<and> day \<le> today"
proof
  assume "active_day (example_session 1 ts)
    (example_db\<lparr>learning_progress := example_history n today\<rparr>) 1 day"
  then obtain k where "k < n" "day = today - int k"
    by (auto simp: active_day_def example_history_def example_progress_def example_streak_date)
  then show "today - int n < day \<and> day \<le> today" by simp
next
  assume a: "today - int n < day \<and> day \<le> today"
  let ?k = "nat (today - day)"
  have "?k < n" "today - int ?k = day" using a by auto
  then have "example_progress (1000 + ?k) 1 (replicate (Suc ?k) CHR ''m'') True (example_noon day)
      \<in> set (example_history n today)"
    unfolding example_history_def by force
  then show "active_day (example_session 1 ts)
    (example_db\<lparr>learning_progress := example_history n today\<rparr>) 1 day"
    unfolding active_day_def by (force simp: example_progress_def example_streak_date)
qed

lemma example_long_active:
  "active_day (example_session 1 ts) example_long_db 1 day
     \<longleftrightarrow> - 2440588 \<le> day \<and> day \<le> 20759"
  unfolding example_long_db_def example_history_active by auto

lemma length_filter_le_one:
  "distinct xs \<Longrightarrow> (\<And>x y. x \<in> set xs \<Longrightarrow> y \<in> set xs \<Longrightarrow> P x \<Longrightarrow> P y \<Longrightarrow> x = y) \<Longrightarrow>
     length (filter P xs) \<le> 1"
proof (induction xs)
  case Nil
  then show ?case by simp
next
  case (Cons a xs)
  have ih: "length (filter P xs) \<le> 1"
    using Cons.prems by (intro Cons.IH) auto
  show ?case
  proof (cases "P a")
    case False
    with ih show ?thesis by simp
  next
    case True
    have "\<not> P x" if "x \<in> set xs" for x
      using Cons.prems(2) [of a x] Cons.prems(1) True that by auto
    then have "filter P xs = []" by (simp add: filter_empty_conv)
    with True show ?thesis by simp
  qed
qed

lemma example_history_unique:
  "learning_progress_unique (example_db\<lparr>learning_progress := example_history n today\<rparr>)"
proof -
  have "length (filter (\<lambda>r. user_id r = Some t \<and> milestone_id r = Some m)
      (example_history n today)) \<le> 1" for t m
  proof -
    have "length (filter ((\<lambda>r. user_id r = Some t \<and> milestone_id r = Some m) \<circ>
        (\<lambda>k. example_progress (1000 + k) 1 (replicate (Suc k) CHR ''m'') True
                (example_noon (today - int k)))) [0..<n]) \<le> 1"
    proof (rule length_filter_le_one)
      show "distinct [0..<n]" by simp
      fix x y
      assume "((\<lambda>r. user_id r = Some t \<and> milestone_id r = Some m) \<circ>
        (\<lambda>k. example_progress (1000 + k) 1 (replicate (Suc k) CHR ''m'') True
                (example_noon (today - int k)))) x"
        and "((\<lambda>r. user_id r = Some t \<and> milestone_id r = Some m) \<circ>
        (\<lambda>k. example_progress (1000 + k) 1 (replicate (Suc k) CHR ''m'') True
                (example_noon (today - int k)))) y"
      then have "replicate (Suc x) CHR ''m'' = m" "replicate (Suc y) CHR ''m'' = m"
        by (simp_all add: example_progress_def)
      then have "length (replicate (Suc x) CHR ''m'') = length (replicate (Suc y) CHR ''m'')"
        by simp
      then show "x = y" by simp
    qed
    then show ?thesis
      unfolding example_history_def filter_map length_map .
  qed
  then show ?thesis
    by (simp add: learning_progress_unique_def)
qed

lemma example_long_db_unique: "learning_progress_unique example_long_db"
  unfolding example_long_db_def by (rule example_history_unique)

text \<open>
  That the streak is \<open>N\<close> whenever the last \<open>N\<close> days are active and the day before them
  is not fails at the first \<^verbatim>\<open>DATE\<close>. On 2026-11-02 tenant 1 has a completed milestone
  on every day back to 4714-11-24 BC, each for a milestone of its own: that is one on
  each of the last 2461348 days, and none on the day 2461348 days ago, which no
  \<^verbatim>\<open>DATE\<close> can hold. The loop counts down to the first \<^verbatim>\<open>DATE\<close>, finds activity there,
  and \<^verbatim>\<open>check_date - INTERVAL '1 day'\<close> raises instead of the function returning 2461348.
\<close>

theorem learning_streak_floor_counterexample:
  "auth_uid (example_session 1 (example_noon 20759)) = Some 1 \<and>
   learning_progress_unique example_long_db \<and>
   \<not> ((\<forall>k<2461348. active_day (example_session 1 (example_noon 20759)) example_long_db 1
           (CURRENT_DATE (example_session 1 (example_noon 20759)) - int k)) \<and>
       \<not> active_day (example_session 1 (example_noon 20759)) example_long_db 1
           (CURRENT_DATE (example_session 1 (example_noon 20759)) - int 2461348)
       \<longrightarrow> get_learning_streak (example_session 1 (example_noon 20759)) example_long_db (Some 1)
             = Inr (int 2461348)) \<and>
   get_learning_streak (example_session 1 (example_noon 20759)) example_long_db (Some 1)
     = Inl DatetimeFieldOverflow"
proof -
  let ?s = "example_session 1 (example_noon 20759)"
  have a: "auth_uid ?s = Some 1"
    by (simp add: example_session_def)
  have h: "\<forall>k<2461348. active_day ?s example_long_db 1 (CURRENT_DATE ?s - int k)"
    unfolding example_streak_today example_long_active by auto
  have g: "\<not> active_day ?s example_long_db 1 (CURRENT_DATE ?s - int 2461348)"
    unfolding example_streak_today example_long_active by simp
  have "\<forall>i. 0 \<le> i \<and> i \<le> CURRENT_DATE ?s - DATE_MIN \<longrightarrow>
      has_activity ?s example_long_db (Some 1) (CURRENT_DATE ?s - i)"
    unfolding has_activity_active_day [OF a] example_streak_today example_long_active DATE_MIN_def
    by auto
  then have r: "get_learning_streak ?s example_long_db (Some 1) = Inl DatetimeFieldOverflow"
    unfolding get_learning_streak_def
    by (intro streak_loop_floor streak_in_range_start)
       (simp_all add: example_streak_today DATE_MIN_def TIMESTAMP_END_DATE_def)
  show ?thesis
    using a h g r example_long_db_unique by simp
qed

text \<open>
  C3 (amended). In a session of tenant \<open>t\<close>: if on each of the last \<open>n\<close> calendar days
  (today, yesterday, ..., \<open>n - 1\<close> days ago) the tenant has a learning_progress row with
  completed = true whose updated_at falls on that day, and has none for the day \<open>n\<close> days
  ago, and that day is not before the first \<^verbatim>\<open>DATE\<close> (4714-11-24 BC), then
  get_learning_streak returns exactly \<open>n\<close>. In particular, with no such row for today it
  returns 0, whatever the earlier days hold. If the active days reach back to the first
  \<^verbatim>\<open>DATE\<close>, the function raises the datetime overflow.
\<close>

theorem learning_streak_consecutive_days:
  "auth_uid s = Some t \<Longrightarrow>
     ((\<forall>k<n. active_day s d t (CURRENT_DATE s - int k)) \<and>
      \<not> active_day s d t (CURRENT_DATE s - int n) \<and>
      DATE_MIN \<le> CURRENT_DATE s - int n \<and> CURRENT_DATE s < TIMESTAMP_END_DATE
        \<longrightarrow> get_learning_streak s d (Some t) = Inr (int n)) \<and>
     (\<not> active_day s d t (CURRENT_DATE s) \<longrightarrow> get_learning_streak s d (Some t) = Inr 0) \<and>
     ((\<forall>k<n. active_day s d t (CURRENT_DATE s - int k)) \<and>
      CURRENT_DATE s - int n < DATE_MIN \<and>
      DATE_MIN \<le> CURRENT_DATE s \<and> CURRENT_DATE s < TIMESTAMP_END_DATE
        \<longrightarrow> get_learning_streak s d (Some t) = Inl DatetimeFieldOverflow)"
proof -
  assume a: "auth_uid s = Some t"
  let ?c = "CURRENT_DATE s"
  have c1: "(\<forall>k<n. active_day s d t (?c - int k)) \<and> \<not> active_day s d t (?c - int n) \<and>
      DATE_MIN \<le> ?c - int n \<and> ?c < TIMESTAMP_END_DATE
        \<longrightarrow> get_learning_streak s d (Some t) = Inr (int n)"
    using streak_loop_run [OF streak_in_range_start, of n s d "Some t" ?c]
    by (simp add: get_learning_streak_def has_activity_active_day [OF a])
  have c2: "\<not> active_day s d t ?c \<longrightarrow> get_learning_streak s d (Some t) = Inr 0"
    by (simp add: get_learning_streak_def has_activity_active_day [OF a] streak_loop_stop)
  have c3: "(\<forall>k<n. active_day s d t (?c - int k)) \<and> ?c - int n < DATE_MIN \<and>
      DATE_MIN \<le> ?c \<and> ?c < TIMESTAMP_END_DATE
        \<longrightarrow> get_learning_streak s d (Some t) = Inl DatetimeFieldOverflow"
  proof
    assume h: "(\<forall>k<n. active_day s d t (?c - int k)) \<and> ?c - int n < DATE_MIN \<and>
      DATE_MIN \<le> ?c \<and> ?c < TIMESTAMP_END_DATE"
    have "\<forall>i. 0 \<le> i \<and> i \<le> ?c - DATE_MIN \<longrightarrow> has_activity s d (Some t) (?c - i)"
    proof (intro allI impI)
      fix i :: int assume i: "0 \<le> i \<and> i \<le> ?c - DATE_MIN"
      with h have "nat i < n" by auto
      with h have "active_day s d t (?c - int (nat i))" by blast
      with i show "has_activity s d (Some t) (?c - i)"
        by (simp add: has_activity_active_day [OF a])
    qed
    with h show "get_learning_streak s d (Some t) = Inl DatetimeFieldOverflow"
      unfolding get_learning_streak_def
      by (intro streak_loop_floor streak_in_range_start) simp_all
  qed
  show ?thesis
    by (intro conjI c1 c2 c3)
qed

theorem learning_streak_consecutive_days_witness:
  "auth_uid (example_session 1 (example_noon 10)) = Some 1 \<and>
   get_learning_streak (example_session 1 (example_noon 10)) example_streak_db (Some 1) = Inr 4 \<and>
   \<not> active_day (example_session 1 (example_noon 11)) example_streak_db 1
        (CURRENT_DATE (example_session 1 (example_noon 11))) \<and>
   get_learning_streak (example_session 1 (example_noon 11)) example_streak_db (Some 1) = Inr 0 \<and>
   CURRENT_DATE (example_session 1 (example_noon 20759)) - int 2461348 < DATE_MIN \<and>
   get_learning_streak (example_session 1 (example_noon 20759)) example_long_db (Some 1)
     = Inl DatetimeFieldOverflow"
proof -
  have a: "auth_uid (example_session 1 ts) = Some 1" for ts
    by (simp add: example_session_def)
  have k: "k < 4 \<Longrightarrow> k = 0 \<or> k = 1 \<or> k = 2 \<or> k = 3" for k :: nat
    by arith
  have h: "\<forall>k<4. active_day (example_session 1 (example_noon 10)) example_streak_db 1
      (CURRENT_DATE (example_session 1 (example_noon 10)) - int k)"
    unfolding example_streak_today example_streak_active using k by auto
  have g: "\<not> active_day (example_session 1 (example_noon 10)) example_streak_db 1
      (CURRENT_DATE (example_session 1 (example_noon 10)) - int 4)"
    unfolding example_streak_today example_streak_active by simp
  have b: "DATE_MIN \<le> CURRENT_DATE (example_session 1 (example_noon 10)) - int 4"
    "CURRENT_DATE (example_session 1 (example_noon 10)) < TIMESTAMP_END_DATE"
    unfolding example_streak_today by (simp_all add: DATE_MIN_def TIMESTAMP_END_DATE_def)
  have z: "\<not> active_day (example_session 1 (example_noon 11)) example_streak_db 1
        (CURRENT_DATE (example_session 1 (example_noon 11)))"
    unfolding example_streak_today example_streak_active by simp
  have l: "\<forall>k<2461348. active_day (example_session 1 (example_noon 20759)) example_long_db 1
      (CURRENT_DATE (example_session 1 (example_noon 20759)) - int k)"
    unfolding example_streak_today example_long_active by auto
  have f: "CURRENT_DATE (example_session 1 (example_noon 20759)) - int 2461348 < DATE_MIN"
    "DATE_MIN \<le> CURRENT_DATE (example_session 1 (example_noon 20759))"
    "CURRENT_DATE (example_session 1 (example_noon 20759)) < TIMESTAMP_END_DATE"
    unfolding example_streak_today by (simp_all add: DATE_MIN_def TIMESTAMP_END_DATE_def)
  have 1: "get_learning_streak (example_session 1 (example_noon 10)) example_streak_db (Some 1) = Inr 4"
    using h g b learning_streak_consecutive_days [OF a, of 4 "example_noon 10" example_streak_db]
    by simp
  have 2: "get_learning_streak (example_session 1 (example_noon 11)) example_streak_db (Some 1) = Inr 0"
    using z learning_streak_consecutive_days [OF a, of 0 "example_noon 11" example_streak_db]
    by simp
  have 3: "get_learning_streak (example_session 1 (example_noon 20759)) example_long_db (Some 1)
     = Inl DatetimeFieldOverflow"
    using l f learning_streak_consecutive_days [OF a, of 2461348 "example_noon 20759" example_long_db]
    by simp
  show ?thesis
    using a 1 2 3 z f(1) by simp
qed
















section \<open>Uniqueness invariants\<close>

lemma unique_append:
  assumes "\<forall>k. length (filter (P k) rows) \<le> 1"
    and "\<And>k x. x \<in> set rows \<Longrightarrow> P k x \<Longrightarrow> P k r \<Longrightarrow> False"
  shows "\<forall>k. length (filter (P k) (rows @ [r])) \<le> 1"
proof
  fix k
  show "length (filter (P k) (rows @ [r])) \<le> 1"
  proof (cases "P k r")
    case True
    then have "filter (P k) rows = []"
      using assms(2) by (auto simp: filter_empty_conv)
    with True show ?thesis by simp
  next
    case False
    then show ?thesis using assms(1) by simp
  qed
qed

lemma unique_filter:
  assumes "\<forall>k. length (filter (P k) rows) \<le> 1"
  shows "\<forall>k. length (filter (P k) (filter Q rows)) \<le> 1"
proof
  fix k
  have "filter (P k) (filter Q rows) = filter Q (filter (P k) rows)"
    by (simp add: conj_commute)
  moreover have "length (filter Q (filter (P k) rows)) \<le> length (filter (P k) rows)"
    by (rule length_filter_le)
  ultimately show "length (filter (P k) (filter Q rows)) \<le> 1"
    using assms [rule_format, of k] by simp
qed

lemma length_filter_replace:
  "length (filter Q (map (\<lambda>x. if T x then new else x) rows)) =
     (if Q new then length (filter T rows) else 0) + length (filter (\<lambda>x. \<not> T x \<and> Q x) rows)"
  by (induction rows) auto

lemma unique_replace:
  assumes "\<forall>k. length (filter (P k) rows) \<le> 1"
    and "length (filter T rows) = 1"
    and "\<And>k x. x \<in> set rows \<Longrightarrow> \<not> T x \<Longrightarrow> P k x \<Longrightarrow> P k new \<Longrightarrow> False"
  shows "\<forall>k. length (filter (P k) (map (\<lambda>x. if T x then new else x) rows)) \<le> 1"
proof
  fix k
  show "length (filter (P k) (map (\<lambda>x. if T x then new else x) rows)) \<le> 1"
  proof (cases "P k new")
    case True
    then have "filter (\<lambda>x. \<not> T x \<and> P k x) rows = []"
      using assms(3) by (auto simp: filter_empty_conv)
    with True assms(2) show ?thesis unfolding length_filter_replace by simp
  next
    case False
    have "filter (\<lambda>x. \<not> T x \<and> P k x) rows = filter (\<lambda>x. \<not> T x) (filter (P k) rows)"
      by (simp add: conj_commute)
    moreover have "length (filter (\<lambda>x. \<not> T x) (filter (P k) rows)) \<le> length (filter (P k) rows)"
      by (rule length_filter_le)
    ultimately show ?thesis
      unfolding length_filter_replace using False assms(1) [rule_format, of k] by simp
  qed
qed

lemma not_key_conflict:
  "\<not> key_conflict uniq others r \<Longrightarrow> x \<in> set others \<Longrightarrow> \<not> uniq x r"
  by (auto simp: key_conflict_def)

lemma unique_profiles_iff:
  "unique_profiles x r \<longleftrightarrow> (\<exists>t. user_id x = Some t \<and> user_id r = Some t)"
  by (cases "user_id x"; cases "user_id r") (auto simp: unique_profiles_def sql_defs)

lemma unique_learning_progress_iff:
  "unique_learning_progress x r \<longleftrightarrow>
     (\<exists>t m. user_id x = Some t \<and> user_id r = Some t \<and> milestone_id x = Some m \<and> milestone_id r = Some m)"
  by (cases "user_id x"; cases "user_id r"; cases "milestone_id x"; cases "milestone_id r")
     (auto simp: unique_learning_progress_def sql_defs)

lemma profiles_append_unique:
  assumes "profiles_unique d" and "\<not> key_conflict unique_profiles (profiles d) r"
  shows "profiles_unique (d\<lparr>profiles := profiles d @ [r]\<rparr>)"
  using unique_append [of "\<lambda>t r. user_id r = Some t" "profiles d" r] assms
    not_key_conflict [OF assms(2)]
  by (auto simp: profiles_unique_def unique_profiles_iff)

lemma profiles_update_unique:
  assumes "profiles_unique d" and "update_row e s us co chk unique_profiles (profiles d) rid new = Inr rows'"
  shows "profiles_unique (d\<lparr>profiles := rows'\<rparr>)"
proof -
  from update_row_Inr [OF assms(2)] show ?thesis
  proof
    assume "rows' = profiles d"
    with assms(1) show ?thesis by (simp add: profiles_unique_def)
  next
    assume h: "policy_permits e UPDATE s new \<and> chk new = None \<and>
      \<not> key_conflict unique_profiles (filter (\<lambda>x. \<not> update_target e s rid x) (profiles d)) new \<and>
      length (filter (update_target e s rid) (profiles d)) = 1 \<and> fk_users us new \<and>
      rows' = map (\<lambda>x. if update_target e s rid x then new else x) (profiles d)"
    then have nk: "\<not> key_conflict unique_profiles (filter (\<lambda>x. \<not> update_target e s rid x) (profiles d)) new"
      by simp
    have "\<forall>t. length (filter (\<lambda>r. user_id r = Some t)
        (map (\<lambda>x. if update_target e s rid x then new else x) (profiles d))) \<le> 1"
    proof (rule unique_replace)
      show "\<forall>t. length (filter (\<lambda>r. user_id r = Some t) (profiles d)) \<le> 1"
        using assms(1) by (simp add: profiles_unique_def)
      show "length (filter (update_target e s rid) (profiles d)) = 1"
        using h by simp
      show False if "x \<in> set (profiles d)" "\<not> update_target e s rid x"
        "user_id x = Some t" "user_id new = Some t" for t x
        using not_key_conflict [OF nk, of x] that by (simp add: unique_profiles_iff)
    qed
    with h show ?thesis by (simp add: profiles_unique_def)
  qed
qed

lemma exec_profiles_unique:
  assumes "exec s d st = Inr d'" and "profiles_unique d"
  shows "profiles_unique d'"
proof (cases st)
  case (Insert r)
  with assms show ?thesis
    by (cases r)
       (auto simp: insert_defs insert_row_Inr tuple_errors_None profiles_append_unique
          split: sum.splits, auto simp: profiles_unique_def)
next
  case (Update rid r)
  with assms show ?thesis
    by (cases r)
       (auto simp: update_defs profiles_update_unique split: sum.splits,
        auto simp: profiles_unique_def)
next
  case (Delete e rid)
  with assms show ?thesis
    using unique_filter [of "\<lambda>t r. user_id r = Some t" "profiles d"]
    by (cases e) (auto simp: profiles_unique_def delete_row_def)
next
  case (CreateUser new g)
  with assms have "tuple_errors (users d @ [new]) constraints_profiles unique_profiles (profiles d)
      (new_profile s new g) = None" and d': "d' = d\<lparr>users := users d @ [new],
        profiles := profiles d @ [new_profile s new g]\<rparr>"
    by (auto simp: insert_auth_users_def handle_new_user_Inr split: if_splits)
  then have "\<not> key_conflict unique_profiles (profiles d) (new_profile s new g)"
    by (simp add: tuple_errors_None)
  from profiles_append_unique [OF assms(2) this] show ?thesis
    unfolding d' by (simp add: profiles_unique_def)
next
  case (DeleteUser t)
  with assms show ?thesis
    using unique_filter [of "\<lambda>t r. user_id r = Some t" "profiles d"]
    by (auto simp: profiles_unique_def delete_auth_users_def cascade_def)
qed

lemma reachable_profiles_unique: "reachable d \<Longrightarrow> profiles_unique d"
proof (induction rule: reachable.induct)
  case reachable_empty
  show ?case by (simp add: profiles_unique_def empty_db_def)
next
  case (reachable_exec d s st d')
  then show ?case using exec_profiles_unique by blast
qed


lemma learning_progress_unique_alt:
  "learning_progress_unique d \<longleftrightarrow>
     (\<forall>k. length (filter (\<lambda>r. user_id r = Some (fst k) \<and> milestone_id r = Some (snd k))
            (learning_progress d)) \<le> 1)"
  by (simp add: learning_progress_unique_def)

lemma learning_progress_append_unique:
  assumes "learning_progress_unique d"
    and "\<not> key_conflict unique_learning_progress (learning_progress d) r"
  shows "learning_progress_unique (d\<lparr>learning_progress := learning_progress d @ [r]\<rparr>)"
proof -
  have "\<forall>k. length (filter (\<lambda>r. user_id r = Some (fst k) \<and> milestone_id r = Some (snd k))
      (learning_progress d @ [r])) \<le> 1"
  proof (rule unique_append)
    show "\<forall>k. length (filter (\<lambda>r. user_id r = Some (fst k) \<and> milestone_id r = Some (snd k))
        (learning_progress d)) \<le> 1"
      using assms(1) by (simp add: learning_progress_unique_alt)
    show False if "x \<in> set (learning_progress d)"
      "user_id x = Some (fst k) \<and> milestone_id x = Some (snd k)"
      "user_id r = Some (fst k) \<and> milestone_id r = Some (snd k)" for k x
      using not_key_conflict [OF assms(2), of x] that by (simp add: unique_learning_progress_iff)
  qed
  then show ?thesis by (simp add: learning_progress_unique_alt)
qed

lemma learning_progress_update_unique:
  assumes "learning_progress_unique d"
    and "update_row e s us co chk unique_learning_progress (learning_progress d) rid new = Inr rows'"
  shows "learning_progress_unique (d\<lparr>learning_progress := rows'\<rparr>)"
proof -
  from update_row_Inr [OF assms(2)] show ?thesis
  proof
    assume "rows' = learning_progress d"
    with assms(1) show ?thesis by (simp add: learning_progress_unique_def)
  next
    assume h: "policy_permits e UPDATE s new \<and> chk new = None \<and>
      \<not> key_conflict unique_learning_progress
          (filter (\<lambda>x. \<not> update_target e s rid x) (learning_progress d)) new \<and>
      length (filter (update_target e s rid) (learning_progress d)) = 1 \<and> fk_users us new \<and>
      rows' = map (\<lambda>x. if update_target e s rid x then new else x) (learning_progress d)"
    then have nk: "\<not> key_conflict unique_learning_progress
          (filter (\<lambda>x. \<not> update_target e s rid x) (learning_progress d)) new"
      by simp
    have "\<forall>k. length (filter (\<lambda>r. user_id r = Some (fst k) \<and> milestone_id r = Some (snd k))
        (map (\<lambda>x. if update_target e s rid x then new else x) (learning_progress d))) \<le> 1"
    proof (rule unique_replace)
      show "\<forall>k. length (filter (\<lambda>r. user_id r = Some (fst k) \<and> milestone_id r = Some (snd k))
          (learning_progress d)) \<le> 1"
        using assms(1) by (simp add: learning_progress_unique_alt)
      show "length (filter (update_target e s rid) (learning_progress d)) = 1"
        using h by simp
      show False if "x \<in> set (learning_progress d)" "\<not> update_target e s rid x"
        "user_id x = Some (fst k) \<and> milestone_id x = Some (snd k)"
        "user_id new = Some (fst k) \<and> milestone_id new = Some (snd k)" for k x
        using not_key_conflict [OF nk, of x] that by (simp add: unique_learning_progress_iff)
    qed
    with h show ?thesis by (simp add: learning_progress_unique_alt)
  qed
qed

lemma learning_progress_filter_unique:
  assumes "learning_progress_unique d"
  shows "learning_progress_unique (d\<lparr>learning_progress := filter Q (learning_progress d)\<rparr>)"
  using unique_filter [of "\<lambda>k r. user_id r = Some (fst k) \<and> milestone_id r = Some (snd k)"
      "learning_progress d" Q] assms
  unfolding learning_progress_unique_alt by simp

lemma learning_progress_unique_frame:
  "learning_progress_unique (d\<lparr>users := us\<rparr>) = learning_progress_unique d"
  "learning_progress_unique (d\<lparr>profiles := ps\<rparr>) = learning_progress_unique d"
  "learning_progress_unique (d\<lparr>applications := as\<rparr>) = learning_progress_unique d"
  "learning_progress_unique (d\<lparr>wellness_logs := ws\<rparr>) = learning_progress_unique d"
  "learning_progress_unique (d\<lparr>saved_jobs := js\<rparr>) = learning_progress_unique d"
  "learning_progress_unique (d\<lparr>interview_sessions := is\<rparr>) = learning_progress_unique d"
  by (simp_all add: learning_progress_unique_def)

lemma exec_learning_progress_unique:
  assumes "exec s d st = Inr d'" and "learning_progress_unique d"
  shows "learning_progress_unique d'"
proof (cases st)
  case (Insert r)
  with assms show ?thesis
    by (cases r)
       (auto simp: insert_defs insert_row_Inr tuple_errors_None learning_progress_append_unique
          learning_progress_unique_frame split: sum.splits)
next
  case (Update rid r)
  with assms show ?thesis
    by (cases r)
       (auto simp: update_defs learning_progress_update_unique learning_progress_unique_frame
          split: sum.splits)
next
  case (Delete e rid)
  with assms show ?thesis
    by (cases e)
       (auto simp: delete_row_def learning_progress_filter_unique learning_progress_unique_frame)
next
  case (CreateUser new g)
  with assms show ?thesis
    by (auto simp: insert_auth_users_def handle_new_user_Inr learning_progress_unique_frame
          split: if_splits)
next
  case (DeleteUser t)
  have "learning_progress_unique (delete_auth_users d t)
      = learning_progress_unique (d\<lparr>learning_progress := filter (\<lambda>r. user_id r \<noteq> Some t) (learning_progress d)\<rparr>)"
    by (simp add: delete_auth_users_def cascade_def learning_progress_unique_def)
  with DeleteUser assms show ?thesis
    by (auto simp: learning_progress_filter_unique)
qed

lemma reachable_learning_progress_unique: "reachable d \<Longrightarrow> learning_progress_unique d"
proof (induction rule: reachable.induct)
  case reachable_empty
  show ?case by (simp add: learning_progress_unique_def empty_db_def)
next
  case (reachable_exec d s st d')
  then show ?case using exec_learning_progress_unique by blast
qed


lemma create_user_Inr:
  assumes "exec s d (CreateUser new g) = Inr d'"
  shows "users_id new \<notin> set (map users_id (users d))"
    and "\<not> key_conflict unique_profiles (profiles d) (new_profile s new g)"
    and "d' = d\<lparr>users := users d @ [new], profiles := profiles d @ [new_profile s new g]\<rparr>"
  using assms
  by (auto simp: insert_auth_users_def handle_new_user_Inr tuple_errors_None split: if_splits)

text \<open>
  C4. When the creation of a tenant succeeds, the trigger has inserted exactly one
  profile row: it is owned by the tenant, carries the tenant's email and the name found
  in the sign-up metadata, and is the only profile of that tenant. Creating the same
  tenant again fails with a unique violation and leaves the database as it was, and so
  does running the hook again for it. In every database that statements build, and after
  every statement that succeeds on a database with the property, no tenant has two
  profile rows.
\<close>

theorem profile_per_tenant:
  "(exec s d (CreateUser new g) = Inr d' \<longrightarrow>
      profiles d' = profiles d @ [new_profile s new g] \<and>
      filter (\<lambda>r. user_id r = Some (users_id new)) (profiles d') = [new_profile s new g] \<and>
      user_id (new_profile s new g) = Some (users_id new) \<and>
      profiles_row.email (new_profile s new g) = auth_users.email new \<and>
      name (new_profile s new g) = json_get_text (raw_user_meta_data new) ''name'' \<and>
      run s' d' (CreateUser new g') = (Some UniqueViolation, d') \<and>
      handle_new_user s' d' new g' = Inl UniqueViolation) \<and>
   (reachable d \<longrightarrow> profiles_unique d) \<and>
   (profiles_unique d \<and> exec s d st = Inr d'' \<longrightarrow> profiles_unique d'')"
proof (intro conjI impI)
  assume x: "exec s d (CreateUser new g) = Inr d'"
  note c = create_user_Inr [OF x]
  show p: "profiles d' = profiles d @ [new_profile s new g]"
    using c(3) by simp
  have o: "user_id (new_profile s new g) = Some (users_id new)"
    by (simp add: new_profile_def)
  have "filter (\<lambda>r. user_id r = Some (users_id new)) (profiles d) = []"
    using not_key_conflict [OF c(2)] o by (auto simp: filter_empty_conv unique_profiles_iff)
  then show "filter (\<lambda>r. user_id r = Some (users_id new)) (profiles d') = [new_profile s new g]"
    using p o by simp
  show "user_id (new_profile s new g) = Some (users_id new)"
    by (rule o)
  show "profiles_row.email (new_profile s new g) = auth_users.email new"
    by (simp add: new_profile_def)
  show "name (new_profile s new g) = json_get_text (raw_user_meta_data new) ''name''"
    by (simp add: new_profile_def)
  show "run s' d' (CreateUser new g') = (Some UniqueViolation, d')"
    using c(3) by (simp add: run_def insert_auth_users_def)
  have "unique_profiles (new_profile s new g) (new_profile s' new g')"
    by (simp add: unique_profiles_iff new_profile_def)
  then have "key_conflict unique_profiles (profiles d') (new_profile s' new g')"
    using p by (auto simp: key_conflict_def)
  then show "handle_new_user s' d' new g' = Inl UniqueViolation"
    by (simp add: handle_new_user_def tuple_errors_def constraints_profiles_def)
next
  show "profiles_unique d" if "reachable d"
    using that by (rule reachable_profiles_unique)
  show "profiles_unique d''" if "profiles_unique d \<and> exec s d st = Inr d''"
    using that exec_profiles_unique by blast
qed

theorem profile_per_tenant_witness:
  "exec (example_session 1 0) empty_db (CreateUser (example_user 1) 101)
     = Inr (empty_db\<lparr>users := [example_user 1],
              profiles := [new_profile (example_session 1 0) (example_user 1) 101]\<rparr>) \<and>
   filter (\<lambda>r. user_id r = Some 1)
     (profiles (empty_db\<lparr>users := [example_user 1],
              profiles := [new_profile (example_session 1 0) (example_user 1) 101]\<rparr>))
     = [new_profile (example_session 1 0) (example_user 1) 101] \<and>
   name (new_profile (example_session 1 0) (example_user 1) 101) = Some ''Ada'' \<and>
   run (example_session 1 7) (empty_db\<lparr>users := [example_user 1],
              profiles := [new_profile (example_session 1 0) (example_user 1) 101]\<rparr>)
       (CreateUser (example_user 1) 103)
     = (Some UniqueViolation, empty_db\<lparr>users := [example_user 1],
              profiles := [new_profile (example_session 1 0) (example_user 1) 101]\<rparr>) \<and>
   reachable example_db \<and> profiles_unique example_db"
proof -
  have x: "exec (example_session 1 0) empty_db (CreateUser (example_user 1) 101)
     = Inr (empty_db\<lparr>users := [example_user 1],
              profiles := [new_profile (example_session 1 0) (example_user 1) 101]\<rparr>)"
    by (simp add: insert_auth_users_def handle_new_user_def tuple_errors_def key_defs sql_defs
          constraints_profiles_def new_profile_def example_user_def empty_db_def)
  have n: "json_get_text (raw_user_meta_data (example_user 1)) ''name'' = Some ''Ada''"
    by (simp add: json_get_text_def example_user_def)
  have u: "users_id (example_user 1) = 1"
    by (simp add: example_user_def)
  show ?thesis
    using x n u example_db_reachable
      profile_per_tenant [where s = "example_session 1 0" and d = empty_db and new = "example_user 1"
        and g = 101 and s' = "example_session 1 7" and g' = 103
        and d' = "empty_db\<lparr>users := [example_user 1],
              profiles := [new_profile (example_session 1 0) (example_user 1) 101]\<rparr>"]
      profile_per_tenant [where d = example_db]
    by simp
qed

lemma insert_learning_progress_Inr:
  assumes "exec s d (Insert (LRow r)) = Inr d'"
  shows "\<exists>t. auth_uid s = Some t \<and> user_id r = Some t" and "milestone_id r \<noteq> None"
    and "d' = d\<lparr>learning_progress := learning_progress d @ [r]\<rparr>"
  using assms
  by (auto simp: insert_learning_progress_def insert_row_Inr tuple_errors_None policy_permits_iff
        constraints_learning_progress_def split: sum.splits if_splits)

text \<open>
  C5. In every database that statements build, and after every statement that succeeds
  on a database with the property, learning_progress holds no two rows with the same
  tenant and milestone id. After an insert has succeeded, an insert of a row with the
  same tenant and milestone id fails in every session and leaves the database as it
  was; issued by that tenant, it fails with a unique violation (a time_spent_minutes
  that is no \<^verbatim>\<open>INTEGER\<close> is refused before that, as out of range).
\<close>

theorem milestone_per_tenant:
  "(reachable d \<longrightarrow> learning_progress_unique d) \<and>
   (learning_progress_unique d \<and> exec s d st = Inr d' \<longrightarrow> learning_progress_unique d') \<and>
   (exec s d (Insert (LRow r1)) = Inr d1 \<and> user_id r2 = user_id r1 \<and>
    milestone_id r2 = milestone_id r1 \<longrightarrow>
      (\<exists>err. run s' d1 (Insert (LRow r2)) = (Some err, d1)) \<and>
      (auth_uid s' = user_id r2 \<longrightarrow>
         run s' d1 (Insert (LRow r2)) =
           (Some (if coerce_learning_progress r2 = None then UniqueViolation
                  else NumericValueOutOfRange), d1)))"
proof (intro conjI impI)
  show "learning_progress_unique d" if "reachable d"
    using that by (rule reachable_learning_progress_unique)
  show "learning_progress_unique d'" if "learning_progress_unique d \<and> exec s d st = Inr d'"
    using that exec_learning_progress_unique by blast
next
  assume h: "exec s d (Insert (LRow r1)) = Inr d1 \<and> user_id r2 = user_id r1 \<and>
    milestone_id r2 = milestone_id r1"
  then have x: "exec s d (Insert (LRow r1)) = Inr d1" by simp
  note i = insert_learning_progress_Inr [OF x]
  have "unique_learning_progress r1 r2"
    using h i(1,2) by (auto simp: unique_learning_progress_iff)
  then have k: "key_conflict unique_learning_progress (learning_progress d1) r2"
    using i(3) by (auto simp: key_conflict_def)
  have c: "constraints_learning_progress r2 = None"
    using h i(2) by (simp add: constraints_learning_progress_def)
  have e: "exec s' d1 (Insert (LRow r2)) =
      Inl (if coerce_learning_progress r2 \<noteq> None then NumericValueOutOfRange
           else if policy_permits LearningProgress INSERT s' r2 then UniqueViolation
           else InsufficientPrivilege)"
  proof (cases "coerce_learning_progress r2")
    case None
    then show ?thesis
      using k c by (simp add: insert_learning_progress_def insert_row_def tuple_errors_def)
  next
    case (Some err)
    then have "err = NumericValueOutOfRange"
      by (simp add: coerce_learning_progress_def split: if_splits)
    with Some show ?thesis
      by (simp add: insert_learning_progress_def insert_row_def)
  qed
  show "\<exists>err. run s' d1 (Insert (LRow r2)) = (Some err, d1)"
    using e by (simp add: run_def)
  show "run s' d1 (Insert (LRow r2)) =
      (Some (if coerce_learning_progress r2 = None then UniqueViolation
             else NumericValueOutOfRange), d1)" if "auth_uid s' = user_id r2"
  proof -
    have "policy_permits LearningProgress INSERT s' r2"
      using that h i(1) by (auto simp: policy_permits_iff)
    with e show ?thesis by (simp add: run_def)
  qed
qed

theorem milestone_per_tenant_witness:
  "exec (example_session 1 0) example_db (Insert (LRow (example_progress 40 1 ''m1'' True 0)))
     = Inr (example_db\<lparr>learning_progress := [example_progress 40 1 ''m1'' True 0]\<rparr>) \<and>
   run (example_session 1 5) (example_db\<lparr>learning_progress := [example_progress 40 1 ''m1'' True 0]\<rparr>)
       (Insert (LRow (example_progress 41 1 ''m1'' False 5)))
     = (Some UniqueViolation, example_db\<lparr>learning_progress := [example_progress 40 1 ''m1'' True 0]\<rparr>) \<and>
   reachable example_db \<and> learning_progress_unique example_db"
proof -
  have x: "exec (example_session 1 0) example_db (Insert (LRow (example_progress 40 1 ''m1'' True 0)))
     = Inr (example_db\<lparr>learning_progress := [example_progress 40 1 ''m1'' True 0]\<rparr>)"
    by (simp add: example_defs eval_defs new_profile_def)
  have a: "auth_uid (example_session 1 5) = user_id (example_progress 41 1 ''m1'' False 5)"
    by (simp add: example_session_def example_progress_def)
  have b: "user_id (example_progress 41 1 ''m1'' False 5) = user_id (example_progress 40 1 ''m1'' True 0)"
    "milestone_id (example_progress 41 1 ''m1'' False 5) = milestone_id (example_progress 40 1 ''m1'' True 0)"
    by (simp_all add: example_progress_def)
  have c: "coerce_learning_progress (example_progress 41 1 ''m1'' False 5) = None"
    by (simp add: example_progress_def coerce_defs)
  show ?thesis
    using x a b c example_db_reachable
      milestone_per_tenant [where s = "example_session 1 0" and d = example_db
        and ?r1.0 = "example_progress 40 1 ''m1'' True 0"
        and ?r2.0 = "example_progress 41 1 ''m1'' False 5" and s' = "example_session 1 5"
        and ?d1.0 = "example_db\<lparr>learning_progress := [example_progress 40 1 ''m1'' True 0]\<rparr>"]
    by simp
qed

end
